theory Spec2Isabelle
  imports Main "HOL-Library.Word"
begin

section \<open>Vulkan handles, enumerations and machine integers\<close>

text \<open>
  The engine sits on top of Vulkan. Native handles (\<open>VkDevice\<close>, \<open>VkSurfaceKHR\<close>,
  \<open>VkDescriptorSet\<close>, ...) are opaque to it: they are only stored, compared and
  handed back. They are modelled as natural numbers, \<open>VK_NULL_HANDLE\<close> being 0.
  \<open>uint32_t\<close> is \<open>32 word\<close>.
\<close>

type_synonym u32 = "32 word"

type_synonym VkDevice = nat
type_synonym VkSurfaceKHR = nat
type_synonym VkDescriptorSet = nat
type_synonym VkHandle = nat

definition VK_NULL_HANDLE :: VkHandle where
  "VK_NULL_HANDLE = 0"

text \<open>The enumerators are those the comments of \<open>Pipeline.h\<close> list for each field.\<close>

datatype VkDynamicState =
    VK_DYNAMIC_STATE_VIEWPORT
  | VK_DYNAMIC_STATE_SCISSOR
  | VK_DYNAMIC_STATE_LINE_WIDTH
  | VK_DYNAMIC_STATE_DEPTH_BIAS
  | VK_DYNAMIC_STATE_BLEND_CONSTANTS
  | VK_DYNAMIC_STATE_DEPTH_BOUNDS
  | VK_DYNAMIC_STATE_STENCIL_COMPARE_MASK
  | VK_DYNAMIC_STATE_STENCIL_WRITE_MASK
  | VK_DYNAMIC_STATE_STENCIL_REFERENCE

datatype VkShaderStageFlagBits =
    VK_SHADER_STAGE_VERTEX_BIT
  | VK_SHADER_STAGE_TESSELLATION_CONTROL_BIT
  | VK_SHADER_STAGE_TESSELLATION_EVALUATION_BIT
  | VK_SHADER_STAGE_GEOMETRY_BIT
  | VK_SHADER_STAGE_FRAGMENT_BIT
  | VK_SHADER_STAGE_COMPUTE_BIT
  | VK_SHADER_STAGE_ALL_GRAPHICS

datatype VkDescriptorType =
    VK_DESCRIPTOR_TYPE_SAMPLER
  | VK_DESCRIPTOR_TYPE_COMBINED_IMAGE_SAMPLER
  | VK_DESCRIPTOR_TYPE_SAMPLED_IMAGE
  | VK_DESCRIPTOR_TYPE_STORAGE_IMAGE
  | VK_DESCRIPTOR_TYPE_UNIFORM_TEXEL_BUFFER
  | VK_DESCRIPTOR_TYPE_STORAGE_TEXEL_BUFFER
  | VK_DESCRIPTOR_TYPE_UNIFORM_BUFFER
  | VK_DESCRIPTOR_TYPE_STORAGE_BUFFER
  | VK_DESCRIPTOR_TYPE_UNIFORM_BUFFER_DYNAMIC
  | VK_DESCRIPTOR_TYPE_STORAGE_BUFFER_DYNAMIC
  | VK_DESCRIPTOR_TYPE_INPUT_ATTACHMENT

section \<open>\<open>std::vector::resize(n, v)\<close>\<close>

text \<open>
  \<open>xs.resize(n, v)\<close> keeps the first \<open>n\<close> elements when the vector shrinks and appends
  copies of \<open>v\<close> when it grows; the elements it keeps are not touched.
\<close>

definition vector_resize :: "'a list \<Rightarrow> nat \<Rightarrow> 'a \<Rightarrow> 'a list" where
  "vector_resize xs n v = take n xs @ replicate (n - length xs) v"

section \<open>\<open>DescriptorSet::PerSurfaceData\<close> (Pipeline.h, lines 149-164)\<close>

record PerSurfaceData =
  psd_descriptorSet :: "VkDescriptorSet list"
  psd_valid :: "bool list"
  psd_device :: VkDevice

definition resize :: "PerSurfaceData \<Rightarrow> u32 \<Rightarrow> PerSurfaceData" where
  "resize psd ac =
     psd\<lparr> psd_descriptorSet := vector_resize (psd_descriptorSet psd) (unat ac) VK_NULL_HANDLE,
          psd_valid := vector_resize (psd_valid psd) (unat ac) False \<rparr>"

text \<open>The constructor stores the device and calls \<open>resize(ac)\<close> on the two empty vectors.\<close>

definition PerSurfaceData_ctor :: "u32 \<Rightarrow> VkDevice \<Rightarrow> PerSurfaceData" where
  "PerSurfaceData_ctor ac d =
     resize \<lparr> psd_descriptorSet = [], psd_valid = [], psd_device = d \<rparr> ac"

text \<open>A run of \<open>resize\<close> calls on one per-surface entry, in order.\<close>

fun resize_all :: "PerSurfaceData \<Rightarrow> u32 list \<Rightarrow> PerSurfaceData" where
  "resize_all psd [] = psd"
| "resize_all psd (ac # acs) = resize_all (resize psd ac) acs"

section \<open>\<open>Pipeline\<close> and the \<open>GraphicsPipeline\<close> queries (Pipeline.h, lines 216-240 and 383-397)\<close>

text \<open>
  \<open>Pipeline::PerDeviceData\<close> (lines 234-238) holds the handle, \<open>VK_NULL_HANDLE\<close> by
  default, and the flag \<open>valid\<close>, \<open>false\<close> by default. The pipeline cache and the
  pipeline layout are held through \<open>shared_ptr\<close>; they are referred to by an identifier.
\<close>

record Pipeline_PerDeviceData =
  pipeline :: VkHandle
  valid :: bool

record Pipeline =
  pipelineCache :: nat
  pipelineLayout :: nat
  perDeviceData :: "VkDevice \<rightharpoonup> Pipeline_PerDeviceData"

record ShaderStageDefinition =
  stage :: VkShaderStageFlagBits
  shaderModule :: nat
  entryPoint :: string

text \<open>
  \<open>GraphicsPipeline\<close> derives from \<open>Pipeline\<close>. Of its own fields the two queries read
  \<open>dynamicStates\<close> and \<open>shaderStages\<close> only; the record is a scheme, so every other
  field of the class lives in its extension part and the results below hold whatever it
  contains.
\<close>

record GraphicsPipeline = Pipeline +
  dynamicStates :: "VkDynamicState list"
  shaderStages :: "ShaderStageDefinition list"

text \<open>The range-for loops with their early \<open>return true\<close>.\<close>

fun hasDynamicState_loop :: "VkDynamicState list \<Rightarrow> VkDynamicState \<Rightarrow> bool" where
  "hasDynamicState_loop [] state = False"
| "hasDynamicState_loop (d # ds) state = (if d = state then True else hasDynamicState_loop ds state)"

definition hasDynamicState :: "'a GraphicsPipeline_scheme \<Rightarrow> VkDynamicState \<Rightarrow> bool" where
  "hasDynamicState p state = hasDynamicState_loop (dynamicStates p) state"

fun hasShaderStage_loop :: "ShaderStageDefinition list \<Rightarrow> VkShaderStageFlagBits \<Rightarrow> bool" where
  "hasShaderStage_loop [] st = False"
| "hasShaderStage_loop (s # ss) st = (if stage s = st then True else hasShaderStage_loop ss st)"

definition hasShaderStage :: "'a GraphicsPipeline_scheme \<Rightarrow> VkShaderStageFlagBits \<Rightarrow> bool" where
  "hasShaderStage p st = hasShaderStage_loop (shaderStages p) st"

section \<open>Failures\<close>

text \<open>
  What C++ leaves undefined or what ends in a thrown error is a value here:
  \<^item> \<open>OutOfRange\<close>: \<open>operator[]\<close> of a \<open>std::vector\<close> or \<open>std::array\<close> beyond its
    size (undefined behaviour in the source);
  \<^item> \<open>LoopDiverges\<close>: a \<open>for (uint32_t i = 0; i < v.size(); ++i)\<close> loop over a vector
    of \<open>2^32\<close> elements or more, whose index wraps to 0 before it can reach the size;
  \<^item> \<open>NotValidated\<close>: the precondition failure of \<open>getHandle\<close>.
\<close>

datatype error = OutOfRange | LoopDiverges | NotValidated

section \<open>Instance-offset recalculation of the GPU-culling example (lines 1190-1251)\<close>

text \<open>
  The records keep the integer fields of the structs. Their \<open>float\<close>, \<open>glm::mat4\<close> and
  padding fields are left out: the offset computation reads \<open>typeID\<close> only.
  \<open>pumex::DrawIndexedIndirectCommand\<close> is declared in another header of the library.
  The code here writes its \<open>firstInstance\<close> field and reads none: the record has that
  field, and whatever else the struct holds is the extension part of the record scheme,
  which the functions below carry along untouched.
\<close>

record StaticInstanceData =
  sid_typeID :: u32
  sid_materialVariant :: u32

record DynamicObjectData =
  dod_typeID :: u32
  dod_materialVariant :: u32

record DynamicInstanceData =
  did_typeID :: u32
  did_materialVariant :: u32

record RenderData =
  staticInstanceData :: "StaticInstanceData list"
  dynamicObjectData :: "DynamicObjectData list"

record DrawIndexedIndirectCommand =
  firstInstance :: u32

text \<open>
  \<open>for (i...) typeCount[instances[i].typeID]++;\<close> over the type ids of the instances.
\<close>

fun countTypes :: "u32 list \<Rightarrow> u32 list \<Rightarrow> error + u32 list" where
  "countTypes typeCount [] = Inr typeCount"
| "countTypes typeCount (t # ts) =
     (if unat t < length typeCount
      then countTypes (typeCount[unat t := typeCount ! unat t + 1]) ts
      else Inl OutOfRange)"

text \<open>\<open>for (i...) offsets.push_back(typeCount[geomToType[i]]);\<close>\<close>

fun gatherOffsets :: "u32 list \<Rightarrow> u32 list \<Rightarrow> error + u32 list" where
  "gatherOffsets typeCount [] = Inr []"
| "gatherOffsets typeCount (g # gs) =
     (if unat g < length typeCount
      then (case gatherOffsets typeCount gs of
              Inl e \<Rightarrow> Inl e
            | Inr offsets \<Rightarrow> Inr (typeCount ! unat g # offsets))
      else Inl OutOfRange)"

text \<open>
  The running-sum loop, on the index \<open>i\<close> as in the source:
  \<open>tmp = offsetSum; offsetSum += offsets[i]; offsets[i] = tmp; results[i].firstInstance = tmp;\<close>
  with \<open>offsetSum\<close> a \<open>uint32_t\<close> that wraps around.
\<close>

function prefixLoop ::
  "nat \<Rightarrow> u32 \<Rightarrow> u32 list \<Rightarrow> 'c DrawIndexedIndirectCommand_scheme list \<Rightarrow>
   error + (u32 \<times> u32 list \<times> 'c DrawIndexedIndirectCommand_scheme list)" where
  "prefixLoop i offsetSum offsets results =
     (if i < length offsets
      then (if i < length results
            then prefixLoop (Suc i) (offsetSum + offsets ! i) (offsets[i := offsetSum])
                   (results[i := (results ! i)\<lparr> firstInstance := offsetSum \<rparr>])
            else Inl OutOfRange)
      else Inr (offsetSum, offsets, results))"
  by pat_completeness auto
termination
  by (relation "measure (\<lambda>(i, s, offsets, r). length offsets - i)") auto

declare prefixLoop.simps [simp del]

text \<open>
  The block the two functions share word for word (lines 1198-1219 and 1230-1251), from
  \<open>std::vector<uint32_t> typeCount(getNumTypesID())\<close>, zero-filled, to the results
  written back and \<open>std::vector<uint32_t>(offsetSum)\<close> for the offset buffer. Where
  several failures apply, which one is reported carries no meaning: none of them is a
  normal return.
\<close>

definition recalculateOffsets ::
  "u32 \<Rightarrow> u32 list \<Rightarrow> u32 list \<Rightarrow> 'c DrawIndexedIndirectCommand_scheme list \<Rightarrow>
   error + ('c DrawIndexedIndirectCommand_scheme list \<times> u32 list)" where
  "recalculateOffsets numTypesID typeIDs geomToType results0 =
     (if 2 ^ 32 \<le> length typeIDs \<or> 2 ^ 32 \<le> length geomToType then Inl LoopDiverges
      else case countTypes (replicate (unat numTypesID) 0) typeIDs of
             Inl e \<Rightarrow> Inl e
           | Inr typeCount \<Rightarrow>
       (case gatherOffsets typeCount geomToType of
             Inl e \<Rightarrow> Inl e
           | Inr offsets \<Rightarrow>
       (case prefixLoop 0 0 offsets results0 of
             Inl e \<Rightarrow> Inl e
           | Inr (offsetSum, offsets', results) \<Rightarrow> Inr (results, replicate (unat offsetSum) 0))))"

text \<open>
  The fields of \<open>GpuCullApplicationData\<close> that the two functions touch. A storage buffer
  object is the vector it holds (\<open>set\<close> stores it, \<open>get\<close> returns it);
  \<open>getNumTypesID()\<close> of the two asset buffers and the viewer's render index come from
  outside and are a field and a parameter. \<open>bonesReset\<close> is a
  \<open>std::map<uint32_t, std::vector<glm::mat4>>\<close>; the matrices are floating point and
  stay opaque (the type variable \<open>'m\<close>). The bone indices \<open>_blimpPropL\<close> ...
  \<open>_airplaneProp\<close> are written without their leading underscore.
\<close>

record ('c, 'm) GpuCullApplicationData =
  renderData :: "RenderData list"
  staticAssetBuffer_numTypesID :: u32
  dynamicAssetBuffer_numTypesID :: u32
  staticInstanceSbo :: "StaticInstanceData list"
  staticResultsSbo :: "'c DrawIndexedIndirectCommand_scheme list"
  staticResultsGeomToType :: "u32 list"
  staticOffValuesSbo :: "u32 list"
  dynamicInstanceSbo :: "DynamicInstanceData list"
  dynamicResultsSbo :: "'c DrawIndexedIndirectCommand_scheme list"
  dynamicResultsGeomToType :: "u32 list"
  dynamicOffValuesSbo :: "u32 list"
  blimpID :: u32
  carID :: u32
  airplaneID :: u32
  bonesReset :: "u32 \<rightharpoonup> 'm list"
  blimpPropL :: u32
  blimpPropR :: u32
  carWheel0 :: u32
  carWheel1 :: u32
  carWheel2 :: u32
  carWheel3 :: u32
  airplaneProp :: u32

definition prepareStaticBuffersForRendering ::
  "u32 \<Rightarrow> ('c, 'm) GpuCullApplicationData \<Rightarrow> error + ('c, 'm) GpuCullApplicationData" where
  "prepareStaticBuffersForRendering renderIndex app =
     (if \<not> unat renderIndex < length (renderData app) then Inl OutOfRange
      else let rData = renderData app ! unat renderIndex in
        case recalculateOffsets (staticAssetBuffer_numTypesID app)
               (map sid_typeID (staticInstanceData rData))
               (staticResultsGeomToType app) (staticResultsSbo app) of
          Inl e \<Rightarrow> Inl e
        | Inr (results, offValues) \<Rightarrow>
            Inr (app\<lparr> staticInstanceSbo := staticInstanceData rData,
                      staticResultsSbo := results,
                      staticOffValuesSbo := offValues \<rparr>))"

text \<open>
  The dynamic variant ends with the loop of lines 1253-1277 that builds one
  \<open>DynamicInstanceData\<close> per object. For an object of the blimp, car or airplane type it
  executes \<open>diData.bones[b] = bonesReset[diData.typeID][b] * glm::rotate(...)\<close> for the
  bones of that type. Neither indexing is checked: \<open>bones\<close> is an array of
  \<open>MAX_BONES = 9\<close> matrices (line 50), and \<open>bonesReset[typeID]\<close> is
  \<open>std::map::operator[]\<close>, which for a type without an entry inserts an empty vector,
  followed by \<open>std::vector::operator[]\<close>. The matrix that is stored is floating point
  and left out; that the two accesses are in range is kept.
\<close>

definition MAX_BONES :: nat where
  "MAX_BONES = 9"

definition boneAssign :: "(u32 \<rightharpoonup> 'm list) \<Rightarrow> u32 \<Rightarrow> u32 \<Rightarrow> error + unit" where
  "boneAssign reset typeID bone =
     (case reset typeID of
        None \<Rightarrow> Inl OutOfRange
      | Some ms \<Rightarrow>
          if unat bone < length ms \<and> unat bone < MAX_BONES then Inr () else Inl OutOfRange)"

fun boneAssigns :: "(u32 \<rightharpoonup> 'm list) \<Rightarrow> u32 \<Rightarrow> u32 list \<Rightarrow> error + unit" where
  "boneAssigns reset typeID [] = Inr ()"
| "boneAssigns reset typeID (b # bs) =
     (case boneAssign reset typeID b of
        Inl e \<Rightarrow> Inl e
      | Inr u \<Rightarrow> boneAssigns reset typeID bs)"

text \<open>The body of the object loop: the three \<open>if\<close> statements in their order.\<close>

definition makeInstance ::
  "('c, 'm) GpuCullApplicationData \<Rightarrow> DynamicObjectData \<Rightarrow> error + DynamicInstanceData" where
  "makeInstance app obj =
     (let t = dod_typeID obj in
      case (if t = blimpID app
            then boneAssigns (bonesReset app) t [blimpPropL app, blimpPropR app]
            else Inr ()) of
        Inl e \<Rightarrow> Inl e
      | Inr u \<Rightarrow>
      (case (if t = carID app
             then boneAssigns (bonesReset app) t [carWheel0 app, carWheel1 app, carWheel2 app, carWheel3 app]
             else Inr ()) of
        Inl e \<Rightarrow> Inl e
      | Inr u \<Rightarrow>
      (case (if t = airplaneID app
             then boneAssigns (bonesReset app) t [airplaneProp app]
             else Inr ()) of
        Inl e \<Rightarrow> Inl e
      | Inr u \<Rightarrow> Inr \<lparr> did_typeID = t, did_materialVariant = dod_materialVariant obj \<rparr>)))"

fun makeInstances ::
  "('c, 'm) GpuCullApplicationData \<Rightarrow> DynamicObjectData list \<Rightarrow> error + DynamicInstanceData list" where
  "makeInstances app [] = Inr []"
| "makeInstances app (obj # objs) =
     (case makeInstance app obj of
        Inl e \<Rightarrow> Inl e
      | Inr d \<Rightarrow>
          (case makeInstances app objs of
             Inl e \<Rightarrow> Inl e
           | Inr ds \<Rightarrow> Inr (d # ds)))"

definition prepareDynamicBuffersForRendering ::
  "u32 \<Rightarrow> ('c, 'm) GpuCullApplicationData \<Rightarrow> error + ('c, 'm) GpuCullApplicationData" where
  "prepareDynamicBuffersForRendering renderIndex app =
     (if \<not> unat renderIndex < length (renderData app) then Inl OutOfRange
      else let rData = renderData app ! unat renderIndex in
        case recalculateOffsets (dynamicAssetBuffer_numTypesID app)
               (map dod_typeID (dynamicObjectData rData))
               (dynamicResultsGeomToType app) (dynamicResultsSbo app) of
          Inl e \<Rightarrow> Inl e
        | Inr (results, offValues) \<Rightarrow>
            (case makeInstances app (dynamicObjectData rData) of
               Inl e \<Rightarrow> Inl e
             | Inr dynamicInstanceData \<Rightarrow>
                 Inr (app\<lparr> dynamicResultsSbo := results,
                           dynamicOffValuesSbo := offValues,
                           dynamicInstanceSbo := dynamicInstanceData \<rparr>)))"

section \<open>The classes of \<open>Pipeline.h\<close> whose member functions are defined elsewhere\<close>

text \<open>
  \<open>Pipeline.h\<close> declares the classes below with their fields and in-class initialisers;
  the bodies of \<open>validate\<close>, \<open>getHandle\<close>, \<open>invalidate\<close>, \<open>internalInvalidate\<close> and of
  the constructors are defined outside the header, in the implementation file of the
  library. The records follow the header. Each function whose body is missing follows
  the design document and says so. Objects held through \<open>shared_ptr\<close> or \<open>weak_ptr\<close>
  are referred to by an identifier (a natural number).
\<close>

subsection \<open>The device and the render context\<close>

text \<open>
  Modelled from the spec: the device context and the frame/surface context are external
  collaborators (section 6). A render context supplies the device, the surface, "the
  current in-flight slot index and the number of in-flight slots".
\<close>

record RenderContext =
  vkDevice :: VkDevice
  vkSurface :: VkSurfaceKHR
  activeIndex :: u32
  imageCount :: u32

text \<open>
  Modelled from the spec: native object creation is a call into the device. The state of
  the device is the log of the creation calls made so far, which is what "counting
  native-creation calls" (section 8) counts; each call returns a fresh handle that is not
  \<open>VK_NULL_HANDLE\<close>. A creation call that fails is fatal and is not handled in this layer
  (section 7), so the calls of the model succeed. \<open>NativeBindingWrite\<close> records the
  writing of the binding values into a native descriptor set.
\<close>

datatype NativeObject =
    NativeDescriptorSetLayout
  | NativeDescriptorPool
  | NativePipelineLayout
  | NativePipelineCache
  | NativePipeline
  | NativeDescriptorSet
  | NativeBindingWrite

type_synonym Vk = "(NativeObject \<times> VkDevice \<times> VkHandle) list"

definition vkCreate :: "NativeObject \<Rightarrow> VkDevice \<Rightarrow> Vk \<Rightarrow> VkHandle \<times> Vk" where
  "vkCreate kind d vk = (Suc (length vk), vk @ [(kind, d, Suc (length vk))])"

text \<open>The number of creation calls of one kind made for one device.\<close>

definition creations :: "NativeObject \<Rightarrow> VkDevice \<Rightarrow> Vk \<Rightarrow> nat" where
  "creations kind d vk = length (filter (\<lambda>c. fst c = kind \<and> fst (snd c) = d) vk)"

subsection \<open>Per-device caches holding one handle\<close>

text \<open>
  \<open>DescriptorSetLayout\<close>, \<open>DescriptorPool\<close>, \<open>PipelineLayout\<close> and \<open>PipelineCache\<close> each
  hold \<open>std::unordered_map<VkDevice, PerDeviceData>\<close>, with \<open>PerDeviceData\<close> a struct of
  one handle: the map is \<open>VkDevice \<rightharpoonup> VkHandle\<close>.

  Modelled from the spec: the bodies of \<open>validate\<close> and \<open>getHandle\<close> are missing.
  "\<open>validate(device)\<close> creates the native handle for \<open>device\<close> if absent in its
  per-device cache, else is a no-op. \<open>getHandle(device)\<close> fails with a "not validated"
  condition if called before \<open>validate\<close>" (section 4.1); sections 4.4 and 5 give the
  pipeline layout and the pipeline cache the same contract.
\<close>

definition cache_validate ::
  "NativeObject \<Rightarrow> VkDevice \<Rightarrow> (VkDevice \<rightharpoonup> VkHandle) \<Rightarrow> Vk \<Rightarrow> (VkDevice \<rightharpoonup> VkHandle) \<times> Vk" where
  "cache_validate kind d cache vk =
     (case cache d of
        Some h \<Rightarrow> (cache, vk)
      | None \<Rightarrow> (case vkCreate kind d vk of (h, vk') \<Rightarrow> (cache(d \<mapsto> h), vk')))"

definition cache_getHandle :: "(VkDevice \<rightharpoonup> VkHandle) \<Rightarrow> VkDevice \<Rightarrow> error + VkHandle" where
  "cache_getHandle cache d =
     (case cache d of None \<Rightarrow> Inl NotValidated | Some h \<Rightarrow> Inr h)"

record DescriptorSetLayoutBinding =
  binding :: u32
  bindingCount :: u32
  descriptorType :: VkDescriptorType
  stageFlags :: u32

record DescriptorSetLayout =
  dsl_bindings :: "DescriptorSetLayoutBinding list"
  dsl_perDeviceData :: "VkDevice \<rightharpoonup> VkHandle"

definition DescriptorSetLayout_ctor :: "DescriptorSetLayoutBinding list \<Rightarrow> DescriptorSetLayout" where
  "DescriptorSetLayout_ctor bs = \<lparr> dsl_bindings = bs, dsl_perDeviceData = Map.empty \<rparr>"

definition DescriptorSetLayout_validate ::
  "RenderContext \<Rightarrow> DescriptorSetLayout \<times> Vk \<Rightarrow> DescriptorSetLayout \<times> Vk" where
  "DescriptorSetLayout_validate rc s =
     (case cache_validate NativeDescriptorSetLayout (vkDevice rc) (dsl_perDeviceData (fst s)) (snd s) of
        (m, vk') \<Rightarrow> ((fst s)\<lparr> dsl_perDeviceData := m \<rparr>, vk'))"

definition DescriptorSetLayout_getHandle :: "DescriptorSetLayout \<Rightarrow> VkDevice \<Rightarrow> error + VkHandle" where
  "DescriptorSetLayout_getHandle l d = cache_getHandle (dsl_perDeviceData l) d"

record DescriptorPool =
  dp_poolSize :: u32
  dp_bindings :: "DescriptorSetLayoutBinding list"
  dp_perDeviceData :: "VkDevice \<rightharpoonup> VkHandle"

definition DescriptorPool_ctor :: "u32 \<Rightarrow> DescriptorSetLayoutBinding list \<Rightarrow> DescriptorPool" where
  "DescriptorPool_ctor n bs = \<lparr> dp_poolSize = n, dp_bindings = bs, dp_perDeviceData = Map.empty \<rparr>"

definition DescriptorPool_validate ::
  "RenderContext \<Rightarrow> DescriptorPool \<times> Vk \<Rightarrow> DescriptorPool \<times> Vk" where
  "DescriptorPool_validate rc s =
     (case cache_validate NativeDescriptorPool (vkDevice rc) (dp_perDeviceData (fst s)) (snd s) of
        (m, vk') \<Rightarrow> ((fst s)\<lparr> dp_perDeviceData := m \<rparr>, vk'))"

definition DescriptorPool_getHandle :: "DescriptorPool \<Rightarrow> VkDevice \<Rightarrow> error + VkHandle" where
  "DescriptorPool_getHandle p d = cache_getHandle (dp_perDeviceData p) d"









subsection \<open>\<open>Pipeline\<close>\<close>

text \<open>
  Modelled from the spec: the body of the constructor \<open>Pipeline(pipelineCache,
  pipelineLayout)\<close> is missing; it stores its two arguments, the cache starts empty.
\<close>

definition Pipeline_ctor :: "nat \<Rightarrow> nat \<Rightarrow> Pipeline" where
  "Pipeline_ctor cache lay = \<lparr> pipelineCache = cache, pipelineLayout = lay, perDeviceData = Map.empty \<rparr>"

text \<open>
  Modelled from the spec: the body of \<open>Pipeline::internalInvalidate\<close> is missing.
  "\<open>internalInvalidate()\<close> discards the cached native pipeline for every device, forcing
  rebuild on next \<open>validate\<close>" (section 4.4), invalidation being "marking a cached
  native handle stale" (glossary): every entry of the cache gets \<open>valid = false\<close>.
\<close>

definition internalInvalidate :: "'a Pipeline_scheme \<Rightarrow> 'a Pipeline_scheme" where
  "internalInvalidate p =
     p\<lparr> perDeviceData := (\<lambda>d. map_option (\<lambda>pdd. pdd\<lparr> valid := False \<rparr>) (perDeviceData p d)) \<rparr>"

text \<open>
  Modelled from the spec: the bodies of the pipelines' \<open>validate\<close> and of
  \<open>Pipeline::getHandle\<close> are missing. The contract "mirrors Binding-Schema Objects"
  (section 4.4), validation being "ensuring a cached native handle exists and is
  current ..., creating it if absent or stale" (glossary): an entry that is absent or
  not valid has its native pipeline created and becomes valid, a valid one is left alone.
  \<open>getHandle\<close> fails where the pipeline is not validated for the device.
\<close>

definition Pipeline_validate ::
  "RenderContext \<Rightarrow> 'a Pipeline_scheme \<times> Vk \<Rightarrow> 'a Pipeline_scheme \<times> Vk" where
  "Pipeline_validate rc s =
     (let p = fst s; vk = snd s; d = vkDevice rc;
          pdd = (case perDeviceData p d of
                   None \<Rightarrow> \<lparr> pipeline = VK_NULL_HANDLE, valid = False \<rparr>
                 | Some pdd \<Rightarrow> pdd)
      in if valid pdd then (p, vk)
         else (case vkCreate NativePipeline d vk of
                 (h, vk') \<Rightarrow> (p\<lparr> perDeviceData := (perDeviceData p)(d \<mapsto> \<lparr> pipeline = h, valid = True \<rparr>) \<rparr>, vk')))"

text \<open>The devices for which a pipeline holds an entry that is valid.\<close>

definition validDevices :: "'a Pipeline_scheme \<Rightarrow> VkDevice set" where
  "validDevices p = {d. \<exists>pdd. perDeviceData p d = Some pdd \<and> valid pdd}"

definition Pipeline_getHandle :: "'a Pipeline_scheme \<Rightarrow> VkDevice \<Rightarrow> error + VkHandle" where
  "Pipeline_getHandle p d =
     (case perDeviceData p d of
        None \<Rightarrow> Inl NotValidated
      | Some pdd \<Rightarrow> if valid pdd then Inr (pipeline pdd) else Inl NotValidated)"

subsection \<open>\<open>Descriptor\<close> and \<open>DescriptorSet\<close>\<close>

record Descriptor =
  owner :: nat
  resources :: "nat list"
  d_descriptorType :: VkDescriptorType

text \<open>
  The fields of \<open>DescriptorSet\<close> (lines 146-170); \<open>activeCount\<close> has the in-class
  initialiser 1, the two maps and the vector start empty.
\<close>

record DescriptorSet =
  layout :: nat
  pool :: nat
  perSurfaceData :: "VkSurfaceKHR \<rightharpoonup> PerSurfaceData"
  descriptors :: "u32 \<rightharpoonup> Descriptor"
  nodeOwners :: "nat list"
  activeCount :: u32

text \<open>
  Modelled from the spec: the body of the constructor \<open>DescriptorSet(layout, pool)\<close> is
  missing. It has no parameter for the in-flight count, so the members keep the values
  the header gives them.
\<close>

definition DescriptorSet_ctor :: "nat \<Rightarrow> nat \<Rightarrow> DescriptorSet" where
  "DescriptorSet_ctor lay pl =
     \<lparr> layout = lay, pool = pl, perSurfaceData = Map.empty, descriptors = Map.empty,
       nodeOwners = [], activeCount = 1 \<rparr>"

text \<open>
  Modelled from the spec: no member function of \<open>DescriptorSet\<close> that changes the
  in-flight count is declared, so the count can only change inside \<open>validate\<close>, from
  the number of in-flight slots that the context supplies: "surfaces may resize this
  count at swap-chain recreation, which must propagate" (section 6), and resizing
  "resizes the handle/validity arrays" (section 4.3). The set adopts the new count and
  every per-surface entry is resized by \<open>PerSurfaceData::resize\<close>, the code of the
  header, which keeps the flags and handles of the slots it keeps.
\<close>

definition resizeInFlightCount :: "u32 \<Rightarrow> DescriptorSet \<Rightarrow> DescriptorSet" where
  "resizeInFlightCount M ds =
     ds\<lparr> activeCount := M,
         perSurfaceData := (\<lambda>sf. map_option (\<lambda>psd. resize psd M) (perSurfaceData ds sf)) \<rparr>"

text \<open>
  Modelled from the spec: the body of \<open>DescriptorSet::validate\<close> is missing.
  "\<open>validate(context)\<close>, given the active in-flight index, validates every contained
  Descriptor, and if the combined binding state for that index is marked invalid,
  (re)allocates a native descriptor set from the pool (or reuses a previously allocated
  one for that index) and writes all binding values into it, then marks that index
  valid" (section 4.3). The per-surface entry is created on first access (section 9) by
  the constructor of \<open>PerSurfaceData\<close> with the set's \<open>activeCount\<close>. Validating the
  descriptors is a pass-through to the backing resources, which are external and have no
  state here. An index beyond the two vectors is \<open>OutOfRange\<close>.

  \<open>DescriptorSet_validateSlot\<close> is the part that works on the slot of the active index;
  \<open>DescriptorSet_validate\<close> first brings the set to the number of in-flight slots of
  the context when the two differ.
\<close>

definition DescriptorSet_validateSlot ::
  "RenderContext \<Rightarrow> DescriptorSet \<times> Vk \<Rightarrow> error + (DescriptorSet \<times> Vk)" where
  "DescriptorSet_validateSlot rc s =
     (let ds = fst s; vk = snd s; k = unat (activeIndex rc);
          psd = (case perSurfaceData ds (vkSurface rc) of
                   None \<Rightarrow> PerSurfaceData_ctor (activeCount ds) (vkDevice rc)
                 | Some psd \<Rightarrow> psd)
      in if \<not> (k < length (psd_valid psd) \<and> k < length (psd_descriptorSet psd)) then Inl OutOfRange
         else if psd_valid psd ! k
         then Inr (ds\<lparr> perSurfaceData := (perSurfaceData ds)(vkSurface rc \<mapsto> psd) \<rparr>, vk)
         else (case (if psd_descriptorSet psd ! k = VK_NULL_HANDLE
                     then vkCreate NativeDescriptorSet (vkDevice rc) vk
                     else (psd_descriptorSet psd ! k, vk)) of
                 (h, vk') \<Rightarrow>
                   Inr (ds\<lparr> perSurfaceData := (perSurfaceData ds)(vkSurface rc \<mapsto>
                              psd\<lparr> psd_descriptorSet := (psd_descriptorSet psd)[k := h],
                                   psd_valid := (psd_valid psd)[k := True] \<rparr>) \<rparr>,
                        vk' @ [(NativeBindingWrite, vkDevice rc, h)])))"

definition DescriptorSet_validate ::
  "RenderContext \<Rightarrow> DescriptorSet \<times> Vk \<Rightarrow> error + (DescriptorSet \<times> Vk)" where
  "DescriptorSet_validate rc s =
     DescriptorSet_validateSlot rc
       (if imageCount rc = activeCount (fst s) then fst s
        else resizeInFlightCount (imageCount rc) (fst s),
        snd s)"

text \<open>A run of \<open>validate\<close> calls on one set; the first failure ends it.\<close>

fun DescriptorSet_validate_all ::
  "RenderContext list \<Rightarrow> DescriptorSet \<times> Vk \<Rightarrow> error + (DescriptorSet \<times> Vk)" where
  "DescriptorSet_validate_all [] s = Inr s"
| "DescriptorSet_validate_all (rc # rcs) s =
     (case DescriptorSet_validate rc s of
        Inl e \<Rightarrow> Inl e
      | Inr s' \<Rightarrow> DescriptorSet_validate_all rcs s')"

text \<open>The pairs of surface and in-flight index at which a set is marked valid.\<close>

definition validSlots :: "DescriptorSet \<Rightarrow> (VkSurfaceKHR \<times> nat) set" where
  "validSlots ds =
     {(s, k). \<exists>psd. perSurfaceData ds s = Some psd \<and> k < length (psd_valid psd) \<and> psd_valid psd ! k}"

text \<open>Every per-surface entry has as many handles and flags as the set's in-flight count.\<close>

definition slotsSized :: "DescriptorSet \<Rightarrow> bool" where
  "slotsSized ds \<longleftrightarrow> (\<forall>sf psd. perSurfaceData ds sf = Some psd \<longrightarrow>
       length (psd_descriptorSet psd) = unat (activeCount ds) \<and> length (psd_valid psd) = unat (activeCount ds))"

text \<open>
  Modelled from the spec: the body of \<open>DescriptorSet::getHandle\<close> is missing.
  "\<open>getHandle(context)\<close> fails with a "set not validated for this index" condition if
  requested before validation" (section 4.3).
\<close>

definition DescriptorSet_getHandle :: "DescriptorSet \<Rightarrow> RenderContext \<Rightarrow> error + VkDescriptorSet" where
  "DescriptorSet_getHandle ds rc =
     (case perSurfaceData ds (vkSurface rc) of
        None \<Rightarrow> Inl NotValidated
      | Some psd \<Rightarrow>
          (let k = unat (activeIndex rc)
           in if k < length (psd_valid psd) \<and> k < length (psd_descriptorSet psd) \<and> psd_valid psd ! k
              then Inr (psd_descriptorSet psd ! k)
              else Inl NotValidated))"

text \<open>
  Modelled from the spec: the body of \<open>DescriptorSet::invalidate\<close> is missing. The
  header declares it as \<open>void invalidate()\<close>: it receives no render context, and the
  class has no member that holds a current in-flight index. "State machine per in-flight
  index: ... {Valid}, (any contained-descriptor invalidation), {Invalid}" (section 4.3),
  and after a resource mutation "index 0 and index 1 are both marked invalid" (section 8):
  every flag of every surface is cleared, the handles are kept for reuse.
\<close>

definition DescriptorSet_invalidate :: "DescriptorSet \<Rightarrow> DescriptorSet" where
  "DescriptorSet_invalidate ds =
     ds\<lparr> perSurfaceData := (\<lambda>s. map_option
            (\<lambda>psd. psd\<lparr> psd_valid := replicate (length (psd_valid psd)) False \<rparr>)
            (perSurfaceData ds s)) \<rparr>"

subsection \<open>The store, resources and their observers\<close>

text \<open>
  Modelled from the spec: backing resources are external collaborators that "hold a
  collection of weak, non-owning references" to their observers, "iterated on mutation"
  (section 9). The store maps the identifier of each live descriptor set to its state,
  each resource to the descriptors registered with it, and logs the render-graph nodes
  whose "invalidate command buffers" hook has been called.
\<close>

record World =
  descriptorSets :: "nat \<rightharpoonup> DescriptorSet"
  observers :: "nat \<Rightarrow> Descriptor list"
  invalidatedNodes :: "nat list"

text \<open>
  Modelled from the spec: \<open>registerInResources()\<close> and \<open>unregisterFromResources()\<close>
  "establish and tear down the observer relationship" with each backing resource of the
  descriptor (section 4.2).
\<close>

definition registerInResources :: "Descriptor \<Rightarrow> World \<Rightarrow> World" where
  "registerInResources d w =
     w\<lparr> observers := fold (\<lambda>r obs. obs(r := obs r @ [d])) (resources d) (observers w) \<rparr>"

definition unregisterFromResources :: "Descriptor \<Rightarrow> World \<Rightarrow> World" where
  "unregisterFromResources d w =
     w\<lparr> observers := fold (\<lambda>r obs. obs(r := remove1 d (obs r))) (resources d) (observers w) \<rparr>"

text \<open>
  Modelled from the spec: \<open>Descriptor::invalidate()\<close> "clears cached validity on the
  owning set and forces it to rebuild"; "any invalidation event also calls an
  "invalidate command buffers" hook on every registered consumer" (sections 4.2, 4.3).
  The owner is a \<open>weak_ptr\<close>: a set that is gone is skipped.
\<close>

definition Descriptor_invalidate :: "Descriptor \<Rightarrow> World \<Rightarrow> World" where
  "Descriptor_invalidate d w =
     (case descriptorSets w (owner d) of
        None \<Rightarrow> w
      | Some ds \<Rightarrow>
          w\<lparr> descriptorSets := (descriptorSets w)(owner d \<mapsto> DescriptorSet_invalidate ds),
             invalidatedNodes := invalidatedNodes w @ nodeOwners ds \<rparr>)"

text \<open>
  Modelled from the spec: a resource mutation "calls back into the descriptor" for each
  registered observer (section 3).
\<close>

definition Resource_invalidate :: "nat \<Rightarrow> World \<Rightarrow> World" where
  "Resource_invalidate r w = fold Descriptor_invalidate (observers w r) w"

text \<open>
  Modelled from the spec: \<open>setDescriptor(slot, resources, kind)\<close> "creates or replaces
  the Descriptor at \<open>slot\<close>, invalidating that slot's cached bindings" (section 4.3); a
  descriptor that is replaced unregisters from its resources.
\<close>

definition setDescriptor :: "nat \<Rightarrow> u32 \<Rightarrow> nat list \<Rightarrow> VkDescriptorType \<Rightarrow> World \<Rightarrow> World" where
  "setDescriptor a slot rs kind w =
     (case descriptorSets w a of
        None \<Rightarrow> w
      | Some ds \<Rightarrow>
          (let d = \<lparr> owner = a, resources = rs, d_descriptorType = kind \<rparr>;
               w1 = (case descriptors ds slot of None \<Rightarrow> w | Some old \<Rightarrow> unregisterFromResources old w);
               w2 = w1\<lparr> descriptorSets := (descriptorSets w1)(a \<mapsto> ds\<lparr> descriptors := (descriptors ds)(slot \<mapsto> d) \<rparr>) \<rparr>
           in Descriptor_invalidate d (registerInResources d w2)))"

section \<open>Facts about \<open>resize\<close>\<close>

lemma length_vector_resize: "length (vector_resize xs n v) = n"
  by (simp add: vector_resize_def)

lemma vector_resize_old: "i < n \<Longrightarrow> i < length xs \<Longrightarrow> vector_resize xs n v ! i = xs ! i"
  by (simp add: vector_resize_def nth_append)

lemma vector_resize_new: "i < n \<Longrightarrow> length xs \<le> i \<Longrightarrow> vector_resize xs n v ! i = v"
  by (simp add: vector_resize_def nth_append)

lemma resize_lengths:
  "length (psd_descriptorSet (resize psd ac)) = unat ac"
  "length (psd_valid (resize psd ac)) = unat ac"
  by (simp_all add: resize_def length_vector_resize)

lemma resize_device: "psd_device (resize psd ac) = psd_device psd"
  by (simp add: resize_def)

lemma resize_all_snoc: "resize_all psd (acs @ [ac]) = resize (resize_all psd acs) ac"
  by (induction acs arbitrary: psd) simp_all

lemma hasDynamicState_loop_iff: "hasDynamicState_loop ds state \<longleftrightarrow> state \<in> set ds"
  by (induction ds) auto

lemma hasShaderStage_loop_iff: "hasShaderStage_loop ss st \<longleftrightarrow> st \<in> stage ` set ss"
  by (induction ss) auto

lemma countTypes_ok:
  "\<forall>t \<in> set ts. unat t < length tc \<Longrightarrow>
   \<exists>tc'. countTypes tc ts = Inr tc' \<and> length tc' = length tc \<and>
     (\<forall>k < length tc. tc' ! k = tc ! k + of_nat (length (filter (\<lambda>t. unat t = k) ts)))"
proof (induction ts arbitrary: tc)
  case Nil
  then show ?case by simp
next
  case (Cons t ts)
  let ?tc1 = "tc[unat t := tc ! unat t + 1]"
  from Cons.prems have t: "unat t < length tc" and ts: "\<forall>t \<in> set ts. unat t < length ?tc1"
    by simp_all
  from Cons.IH [OF ts] obtain tc' where r: "countTypes ?tc1 ts = Inr tc'"
    and l: "length tc' = length tc"
    and v: "\<forall>k < length tc. tc' ! k = ?tc1 ! k + of_nat (length (filter (\<lambda>t. unat t = k) ts))"
    by auto
  have "\<forall>k < length tc. tc' ! k = tc ! k + of_nat (length (filter (\<lambda>t. unat t = k) (t # ts)))"
  proof (intro allI impI)
    fix k assume k: "k < length tc"
    with v have "tc' ! k = ?tc1 ! k + of_nat (length (filter (\<lambda>t. unat t = k) ts))" by simp
    then show "tc' ! k = tc ! k + of_nat (length (filter (\<lambda>t. unat t = k) (t # ts)))"
      using k by (cases "unat t = k") (simp_all add: nth_list_update)
  qed
  with r l t show ?case by simp
qed

lemma gatherOffsets_ok:
  "\<forall>g \<in> set gs. unat g < length tc \<Longrightarrow>
   gatherOffsets tc gs = Inr (map (\<lambda>g. tc ! unat g) gs)"
  by (induction gs) simp_all

lemma prefixLoop_ok:
  "length offsets \<le> length results \<Longrightarrow> i \<le> length offsets \<Longrightarrow>
   \<exists>results'. prefixLoop i s offsets results =
       Inr (s + sum_list (drop i offsets), take i offsets @ map (\<lambda>j. s + sum_list (take (j - i) (drop i offsets))) [i ..< length offsets], results')
     \<and> length results' = length results
     \<and> (\<forall>j < length results. results' ! j =
           (if i \<le> j \<and> j < length offsets
            then (results ! j)\<lparr> firstInstance := s + sum_list (take (j - i) (drop i offsets)) \<rparr>
            else results ! j))"
proof (induction i s offsets results rule: prefixLoop.induct)
  case (1 i s offsets results)
  show ?case
  proof (cases "i < length offsets")
    case False
    with "1.prems" have "i = length offsets" by simp
    then show ?thesis by (subst prefixLoop.simps) auto
  next
    case True
    then have ir: "i < length results" using "1.prems" by simp
    let ?o = "offsets[i := s]"
    let ?r = "results[i := (results ! i)\<lparr> firstInstance := s \<rparr>]"
    have p1: "length ?o \<le> length ?r" using "1.prems" by simp
    have p2: "Suc i \<le> length ?o" using True by simp
    from "1.IH" [OF True ir p1 p2] obtain results' where
      r: "prefixLoop (Suc i) (s + offsets ! i) ?o ?r =
          Inr (s + offsets ! i + sum_list (drop (Suc i) ?o),
               take (Suc i) ?o @ map (\<lambda>j. s + offsets ! i + sum_list (take (j - Suc i) (drop (Suc i) ?o))) [Suc i ..< length ?o], results')"
      and l: "length results' = length ?r"
      and v: "\<forall>j < length ?r. results' ! j =
           (if Suc i \<le> j \<and> j < length ?o
            then (?r ! j)\<lparr> firstInstance := s + offsets ! i + sum_list (take (j - Suc i) (drop (Suc i) ?o)) \<rparr>
            else ?r ! j)"
      by blast
    have d: "drop (Suc i) ?o = drop (Suc i) offsets" by simp
    have di: "drop i offsets = offsets ! i # drop (Suc i) offsets"
      using True by (simp add: Cons_nth_drop_Suc)
    have e1: "s + offsets ! i + sum_list (drop (Suc i) ?o) = s + sum_list (drop i offsets)"
      by (simp add: d di add.assoc)
    have tk: "\<And>j. Suc i \<le> j \<Longrightarrow> s + offsets ! i + sum_list (take (j - Suc i) (drop (Suc i) ?o))
               = s + sum_list (take (j - i) (drop i offsets))"
    proof -
      fix j assume "Suc i \<le> j"
      then have "j - i = Suc (j - Suc i)" by simp
      then show "s + offsets ! i + sum_list (take (j - Suc i) (drop (Suc i) ?o))
               = s + sum_list (take (j - i) (drop i offsets))"
        by (simp add: d di add.assoc)
    qed
    have e2: "take (Suc i) ?o @ map (\<lambda>j. s + offsets ! i + sum_list (take (j - Suc i) (drop (Suc i) ?o))) [Suc i ..< length ?o]
            = take i offsets @ map (\<lambda>j. s + sum_list (take (j - i) (drop i offsets))) [i ..< length offsets]"
    proof -
      have a: "take (Suc i) ?o = take i offsets @ [s]"
        using True by (simp add: take_Suc_conv_app_nth)
      have b: "[i ..< length offsets] = i # [Suc i ..< length offsets]"
        using True by (simp add: upt_conv_Cons)
      have c: "map (\<lambda>j. s + offsets ! i + sum_list (take (j - Suc i) (drop (Suc i) ?o))) [Suc i ..< length ?o]
             = map (\<lambda>j. s + sum_list (take (j - i) (drop i offsets))) [Suc i ..< length offsets]"
        using tk by (intro map_cong) simp_all
      show ?thesis unfolding a b c by simp
    qed
    have e3: "\<forall>j < length results. results' ! j =
           (if i \<le> j \<and> j < length offsets
            then (results ! j)\<lparr> firstInstance := s + sum_list (take (j - i) (drop i offsets)) \<rparr>
            else results ! j)"
    proof (intro allI impI)
      fix j assume j: "j < length results"
      consider "j < i" | "j = i" | "Suc i \<le> j" by linarith
      then show "results' ! j =
           (if i \<le> j \<and> j < length offsets
            then (results ! j)\<lparr> firstInstance := s + sum_list (take (j - i) (drop i offsets)) \<rparr>
            else results ! j)"
      proof cases
        case 1
        with v j show ?thesis by simp
      next
        case 2
        with v j True show ?thesis by simp
      next
        case 3
        with v j tk [OF 3] show ?thesis by simp
      qed
    qed
    show ?thesis
      apply (subst prefixLoop.simps)
      using True ir r l e3 unfolding e1 e2 by simp
  qed
qed

lemma unat_of_nat_u32: "unat (of_nat n :: u32) = n mod 2 ^ 32"
  by (simp add: unat_of_nat)

lemma sum_list_take_of_nat:
  "sum_list (take i (map (\<lambda>g. (of_nat (c g) :: u32)) gs)) = of_nat (\<Sum>j<min i (length gs). c (gs ! j))"
proof -
  have "sum_list (take i (map (\<lambda>g. (of_nat (c g) :: u32)) gs)) = of_nat (sum_list (map c (take i gs)))"
    by (induction gs arbitrary: i) (simp_all add: take_Cons split: nat.splits)
  also have "sum_list (map c (take i gs)) = (\<Sum>j<min i (length gs). c (gs ! j))"
    by (simp add: sum_list_sum_nth atLeast0LessThan min.commute)
  finally show ?thesis .
qed

lemma recalculateOffsets_ok:
  assumes ts: "\<forall>t \<in> set typeIDs. t < numTypesID"
    and gs: "\<forall>g \<in> set geomToType. g < numTypesID"
    and len: "length geomToType \<le> length results0"
    and sz: "length typeIDs < 2 ^ 32" "length geomToType < 2 ^ 32"
  shows "\<exists>results offValues.
      recalculateOffsets numTypesID typeIDs geomToType results0 = Inr (results, offValues) \<and>
      length results = length results0 \<and>
      (\<forall>i < length results0. results ! i =
         (if i < length geomToType
          then (results0 ! i)\<lparr> firstInstance :=
                 of_nat (\<Sum>j<i. length (filter (\<lambda>t. t = geomToType ! j) typeIDs)) \<rparr>
          else results0 ! i)) \<and>
      offValues = replicate ((\<Sum>j<length geomToType. length (filter (\<lambda>t. t = geomToType ! j) typeIDs)) mod 2 ^ 32) 0"
proof -
  let ?c = "\<lambda>g. length (filter (\<lambda>t. t = g) typeIDs)"
  let ?tc0 = "replicate (unat numTypesID) (0::u32)"
  have ts': "\<forall>t \<in> set typeIDs. unat t < length ?tc0"
    using ts by (simp add: word_less_nat_alt)
  from countTypes_ok [OF ts'] obtain tc where
    ct: "countTypes ?tc0 typeIDs = Inr tc" and ltc: "length tc = unat numTypesID"
    and vtc: "\<forall>k < unat numTypesID. tc ! k = of_nat (length (filter (\<lambda>t. unat t = k) typeIDs))"
    by auto
  have gs': "\<forall>g \<in> set geomToType. unat g < length tc"
    using gs ltc by (simp add: word_less_nat_alt)
  have "map (\<lambda>g. tc ! unat g) geomToType = map (\<lambda>g. of_nat (?c g)) geomToType"
  proof (rule map_cong [OF refl])
    fix g assume "g \<in> set geomToType"
    with gs have "unat g < unat numTypesID" by (simp add: word_less_nat_alt)
    with vtc have "tc ! unat g = of_nat (length (filter (\<lambda>t. unat t = unat g) typeIDs))" by simp
    then show "tc ! unat g = of_nat (?c g)" by (simp add: word_unat_eq_iff)
  qed
  with gatherOffsets_ok [OF gs'] have go: "gatherOffsets tc geomToType = Inr (map (\<lambda>g. of_nat (?c g)) geomToType)"
    by simp
  let ?offs = "map (\<lambda>g. (of_nat (?c g) :: u32)) geomToType"
  have l1: "length ?offs \<le> length results0" using len by simp
  from prefixLoop_ok [OF l1, of 0 0] obtain offs' results where
    pl: "prefixLoop 0 0 ?offs results0 = Inr (sum_list ?offs, offs', results)"
    and lr: "length results = length results0"
    and vr: "\<forall>j < length results0. results ! j =
           (if j < length geomToType
            then (results0 ! j)\<lparr> firstInstance := sum_list (take j ?offs) \<rparr>
            else results0 ! j)"
    by auto
  have tot: "sum_list ?offs = of_nat (\<Sum>j<length geomToType. ?c (geomToType ! j))"
    using sum_list_take_of_nat [of "length geomToType" ?c geomToType] by simp
  have part: "\<And>j. j < length geomToType \<Longrightarrow> sum_list (take j ?offs) = of_nat (\<Sum>k<j. ?c (geomToType ! k))"
    using sum_list_take_of_nat [of _ ?c geomToType] by (simp add: min_def)
  have un: "unat (sum_list ?offs) = (\<Sum>j<length geomToType. ?c (geomToType ! j)) mod 2 ^ 32"
    unfolding tot by (rule unat_of_nat_u32)
  have "recalculateOffsets numTypesID typeIDs geomToType results0
        = Inr (results, replicate ((\<Sum>j<length geomToType. ?c (geomToType ! j)) mod 2 ^ 32) 0)"
    using sz ct go pl un by (simp add: recalculateOffsets_def)
  moreover have "\<forall>i < length results0. results ! i =
         (if i < length geomToType
          then (results0 ! i)\<lparr> firstInstance := of_nat (\<Sum>j<i. ?c (geomToType ! j)) \<rparr>
          else results0 ! i)"
    using vr part by simp
  ultimately show ?thesis using lr by blast
qed


lemma recalculateOffsets_prefix_sum:
  assumes ts: "\<forall>x \<in> set insts. f x < numTypesID"
    and gs: "\<forall>g \<in> set geomToType. g < numTypesID"
    and len: "length geomToType \<le> length results0"
    and sz: "length insts < 2 ^ 32" "length geomToType < 2 ^ 32"
  shows "\<exists>results offValues.
      recalculateOffsets numTypesID (map f insts) geomToType results0 = Inr (results, offValues) \<and>
      length results = length results0 \<and>
      (\<forall>i < length geomToType. unat (firstInstance (results ! i)) =
         (\<Sum>j<i. length (filter (\<lambda>x. f x = geomToType ! j) insts)) mod 2 ^ 32) \<and>
      length offValues = (\<Sum>j<length geomToType. length (filter (\<lambda>x. f x = geomToType ! j) insts)) mod 2 ^ 32 \<and>
      ((\<Sum>j<length geomToType. length (filter (\<lambda>x. f x = geomToType ! j) insts)) < 2 ^ 32 \<longrightarrow>
         (\<forall>i < length geomToType. unat (firstInstance (results ! i)) =
            (\<Sum>j<i. length (filter (\<lambda>x. f x = geomToType ! j) insts))) \<and>
         length offValues = (\<Sum>j<length geomToType. length (filter (\<lambda>x. f x = geomToType ! j) insts)))"
proof -
  let ?c = "\<lambda>j. length (filter (\<lambda>x. f x = geomToType ! j) insts)"
  have c: "\<And>g. length (filter (\<lambda>t. t = g) (map f insts)) = length (filter (\<lambda>x. f x = g) insts)"
    by (simp add: filter_map o_def)
  have ts': "\<forall>t \<in> set (map f insts). t < numTypesID" using ts by simp
  have sz': "length (map f insts) < 2 ^ 32" using sz by simp
  from recalculateOffsets_ok [OF ts' gs len sz' sz(2)] obtain results offValues where
    r: "recalculateOffsets numTypesID (map f insts) geomToType results0 = Inr (results, offValues)"
    and l: "length results = length results0"
    and v: "\<forall>i < length results0. results ! i =
         (if i < length geomToType
          then (results0 ! i)\<lparr> firstInstance := of_nat (\<Sum>j<i. ?c j) \<rparr>
          else results0 ! i)"
    and o: "offValues = replicate ((\<Sum>j<length geomToType. ?c j) mod 2 ^ 32) 0"
    unfolding c by blast
  have fi: "\<forall>i < length geomToType. unat (firstInstance (results ! i)) = (\<Sum>j<i. ?c j) mod 2 ^ 32"
  proof (intro allI impI)
    fix i assume i: "i < length geomToType"
    with len have "i < length results0" by simp
    with v i have "firstInstance (results ! i) = of_nat (\<Sum>j<i. ?c j)" by simp
    then show "unat (firstInstance (results ! i)) = (\<Sum>j<i. ?c j) mod 2 ^ 32"
      by (simp only: unat_of_nat_u32)
  qed
  have lo: "length offValues = (\<Sum>j<length geomToType. ?c j) mod 2 ^ 32"
    using o by simp
  have ex: "(\<Sum>j<length geomToType. ?c j) < 2 ^ 32 \<longrightarrow>
         (\<forall>i < length geomToType. unat (firstInstance (results ! i)) = (\<Sum>j<i. ?c j)) \<and>
         length offValues = (\<Sum>j<length geomToType. ?c j)"
  proof (intro impI conjI allI)
    assume tot: "(\<Sum>j<length geomToType. ?c j) < 2 ^ 32"
    then show "length offValues = (\<Sum>j<length geomToType. ?c j)" using lo by simp
    fix i assume i: "i < length geomToType"
    have "(\<Sum>j<i. ?c j) \<le> (\<Sum>j<length geomToType. ?c j)"
      using i by (intro sum_mono2) auto
    with tot have "(\<Sum>j<i. ?c j) < 2 ^ 32" by simp
    with fi i show "unat (firstInstance (results ! i)) = (\<Sum>j<i. ?c j)" by simp
  qed
  from r l fi lo ex show ?thesis by blast
qed

lemma recalculateOffsets_prefix_sum_split:
  assumes "\<forall>x \<in> set insts. f x < numTypesID"
    and "\<forall>g \<in> set geomToType. g < numTypesID"
    and "length geomToType \<le> length results0"
    and "length insts < 2 ^ 32" "length geomToType < 2 ^ 32"
  shows "case recalculateOffsets numTypesID (map f insts) geomToType results0 of
      Inl e \<Rightarrow> False
    | Inr (results, offValues) \<Rightarrow>
      length results = length results0 \<and>
      (\<forall>i < length geomToType. unat (firstInstance (results ! i)) =
         (\<Sum>j<i. length (filter (\<lambda>x. f x = geomToType ! j) insts)) mod 2 ^ 32) \<and>
      length offValues = (\<Sum>j<length geomToType. length (filter (\<lambda>x. f x = geomToType ! j) insts)) mod 2 ^ 32 \<and>
      ((\<Sum>j<length geomToType. length (filter (\<lambda>x. f x = geomToType ! j) insts)) < 2 ^ 32 \<longrightarrow>
         (\<forall>i < length geomToType. unat (firstInstance (results ! i)) =
            (\<Sum>j<i. length (filter (\<lambda>x. f x = geomToType ! j) insts))) \<and>
         length offValues = (\<Sum>j<length geomToType. length (filter (\<lambda>x. f x = geomToType ! j) insts)))"
  using recalculateOffsets_prefix_sum [OF assms] by auto

section \<open>Facts about the object loop of the dynamic variant\<close>

lemma boneAssigns_ok:
  "reset t = Some ms \<Longrightarrow> \<forall>b \<in> set bs. unat b < length ms \<and> unat b < MAX_BONES \<Longrightarrow>
   boneAssigns reset t bs = Inr ()"
  by (induction bs) (simp_all add: boneAssign_def)

lemma makeInstances_ok:
  assumes "\<forall>x \<in> set objs.
      (dod_typeID x = blimpID app \<longrightarrow>
         (\<exists>ms. bonesReset app (blimpID app) = Some ms \<and>
               (\<forall>b \<in> set [blimpPropL app, blimpPropR app]. unat b < length ms \<and> unat b < MAX_BONES))) \<and>
      (dod_typeID x = carID app \<longrightarrow>
         (\<exists>ms. bonesReset app (carID app) = Some ms \<and>
               (\<forall>b \<in> set [carWheel0 app, carWheel1 app, carWheel2 app, carWheel3 app].
                  unat b < length ms \<and> unat b < MAX_BONES))) \<and>
      (dod_typeID x = airplaneID app \<longrightarrow>
         (\<exists>ms. bonesReset app (airplaneID app) = Some ms \<and>
               (\<forall>b \<in> set [airplaneProp app]. unat b < length ms \<and> unat b < MAX_BONES)))"
  shows "makeInstances app objs =
     Inr (map (\<lambda>x. \<lparr> did_typeID = dod_typeID x, did_materialVariant = dod_materialVariant x \<rparr>) objs)"
  using assms
proof (induction objs)
  case Nil
  then show ?case by simp
next
  case (Cons x objs)
  from Cons.prems have hd:
      "dod_typeID x = blimpID app \<longrightarrow>
         (\<exists>ms. bonesReset app (blimpID app) = Some ms \<and>
               (\<forall>b \<in> set [blimpPropL app, blimpPropR app]. unat b < length ms \<and> unat b < MAX_BONES))"
      "dod_typeID x = carID app \<longrightarrow>
         (\<exists>ms. bonesReset app (carID app) = Some ms \<and>
               (\<forall>b \<in> set [carWheel0 app, carWheel1 app, carWheel2 app, carWheel3 app].
                  unat b < length ms \<and> unat b < MAX_BONES))"
      "dod_typeID x = airplaneID app \<longrightarrow>
         (\<exists>ms. bonesReset app (airplaneID app) = Some ms \<and>
               (\<forall>b \<in> set [airplaneProp app]. unat b < length ms \<and> unat b < MAX_BONES))"
    by simp_all
  have b: "boneAssigns (bonesReset app) (dod_typeID x) [blimpPropL app, blimpPropR app] = Inr ()"
    if "dod_typeID x = blimpID app"
    using hd(1) that boneAssigns_ok [of "bonesReset app" "blimpID app"] by metis
  have c: "boneAssigns (bonesReset app) (dod_typeID x)
            [carWheel0 app, carWheel1 app, carWheel2 app, carWheel3 app] = Inr ()"
    if "dod_typeID x = carID app"
    using hd(2) that boneAssigns_ok [of "bonesReset app" "carID app"] by metis
  have a: "boneAssigns (bonesReset app) (dod_typeID x) [airplaneProp app] = Inr ()"
    if "dod_typeID x = airplaneID app"
    using hd(3) that boneAssigns_ok [of "bonesReset app" "airplaneID app"] by metis
  have "makeInstance app x =
      Inr \<lparr> did_typeID = dod_typeID x, did_materialVariant = dod_materialVariant x \<rparr>"
  proof -
    have B: "(if dod_typeID x = blimpID app
              then boneAssigns (bonesReset app) (dod_typeID x) [blimpPropL app, blimpPropR app]
              else Inr ()) = Inr ()"
      using b by (cases "dod_typeID x = blimpID app") (simp_all del: boneAssigns.simps)
    have C: "(if dod_typeID x = carID app
              then boneAssigns (bonesReset app) (dod_typeID x)
                     [carWheel0 app, carWheel1 app, carWheel2 app, carWheel3 app]
              else Inr ()) = Inr ()"
      using c by (cases "dod_typeID x = carID app") (simp_all del: boneAssigns.simps)
    have A: "(if dod_typeID x = airplaneID app
              then boneAssigns (bonesReset app) (dod_typeID x) [airplaneProp app]
              else Inr ()) = Inr ()"
      using a by (cases "dod_typeID x = airplaneID app") (simp_all del: boneAssigns.simps)
    show ?thesis
      unfolding makeInstance_def Let_def by (simp only: A B C sum.case)
  qed
  moreover from Cons have "makeInstances app objs =
     Inr (map (\<lambda>x. \<lparr> did_typeID = dod_typeID x, did_materialVariant = dod_materialVariant x \<rparr>) objs)"
    by simp
  ultimately show ?case by simp
qed

section \<open>Facts about the per-device caches\<close>


lemma creations_append: "creations kind d (vk @ vk') = creations kind d vk + creations kind d vk'"
  by (simp add: creations_def)

lemma creations_single:
  "creations kind d [(k, d', h)] = (if k = kind \<and> d' = d then 1 else 0)"
  by (simp add: creations_def)

lemma cache_validate_present:
  "m d = Some h \<Longrightarrow> cache_validate kind d m vk = (m, vk)"
  by (simp add: cache_validate_def)

lemma cache_validate_absent:
  "m d = None \<Longrightarrow> cache_validate kind d m vk = (m(d \<mapsto> Suc (length vk)), vk @ [(kind, d, Suc (length vk))])"
  by (simp add: cache_validate_def vkCreate_def)


lemma cache_validate_other:
  "d' \<noteq> d \<Longrightarrow> fst (cache_validate kind d m vk) d' = m d'"
  by (cases "m d") (simp_all add: cache_validate_present cache_validate_absent)


lemma cache_validate_creations:
  "creations kind d' (snd (cache_validate kind d m vk)) =
   creations kind d' vk + (if d' = d \<and> m d = None then 1 else 0)"
  by (cases "m d") (simp_all add: cache_validate_present cache_validate_absent creations_append creations_single)













lemma Pipeline_validate_stale:
  "vkDevice rc \<notin> validDevices (fst s) \<Longrightarrow>
   Pipeline_validate rc s =
     ((fst s)\<lparr> perDeviceData := (perDeviceData (fst s))(vkDevice rc \<mapsto> \<lparr> pipeline = Suc (length (snd s)), valid = True \<rparr>) \<rparr>,
      snd s @ [(NativePipeline, vkDevice rc, Suc (length (snd s)))])"
  by (auto simp: Pipeline_validate_def validDevices_def Let_def vkCreate_def split: option.splits)





lemma cache_fold_absent_dsl:
  "\<forall>rc \<in> set rcs. vkDevice rc \<noteq> d \<Longrightarrow>
   dsl_perDeviceData (fst (fold DescriptorSetLayout_validate rcs s)) d = dsl_perDeviceData (fst s) d"
proof (induction rcs arbitrary: s)
  case Nil
  then show ?case by simp
next
  case (Cons rc rcs)
  then have "dsl_perDeviceData (fst (DescriptorSetLayout_validate rc s)) d = dsl_perDeviceData (fst s) d"
    using cache_validate_other [of d "vkDevice rc" NativeDescriptorSetLayout "dsl_perDeviceData (fst s)" "snd s"]
    by (simp add: DescriptorSetLayout_validate_def split_beta)
  with Cons show ?case by simp
qed

lemma cache_fold_absent_dp:
  "\<forall>rc \<in> set rcs. vkDevice rc \<noteq> d \<Longrightarrow>
   dp_perDeviceData (fst (fold DescriptorPool_validate rcs s)) d = dp_perDeviceData (fst s) d"
proof (induction rcs arbitrary: s)
  case Nil
  then show ?case by simp
next
  case (Cons rc rcs)
  then have "dp_perDeviceData (fst (DescriptorPool_validate rc s)) d = dp_perDeviceData (fst s) d"
    using cache_validate_other [of d "vkDevice rc" NativeDescriptorPool "dp_perDeviceData (fst s)" "snd s"]
    by (simp add: DescriptorPool_validate_def split_beta)
  with Cons show ?case by simp
qed

lemma Pipeline_validate_other:
  "vkDevice rc \<noteq> d \<Longrightarrow> perDeviceData (fst (Pipeline_validate rc s)) d = perDeviceData (fst s) d"
  by (simp add: Pipeline_validate_def Let_def vkCreate_def)

lemma Pipeline_fold_absent:
  "\<forall>rc \<in> set rcs. vkDevice rc \<noteq> d \<Longrightarrow>
   perDeviceData (fst (fold Pipeline_validate rcs s)) d = perDeviceData (fst s) d"
proof (induction rcs arbitrary: s)
  case Nil
  then show ?case by simp
next
  case (Cons rc rcs)
  then have "perDeviceData (fst (Pipeline_validate rc s)) d = perDeviceData (fst s) d"
    by (simp add: Pipeline_validate_other)
  with Cons show ?case by simp
qed

section \<open>Facts about descriptor sets\<close>

lemma PerSurfaceData_ctor_valid: "psd_valid (PerSurfaceData_ctor ac d) = replicate (unat ac) False"
  by (simp add: PerSurfaceData_ctor_def resize_def vector_resize_def)

lemma PerSurfaceData_ctor_descriptorSet:
  "psd_descriptorSet (PerSurfaceData_ctor ac d) = replicate (unat ac) VK_NULL_HANDLE"
  by (simp add: PerSurfaceData_ctor_def resize_def vector_resize_def)

lemma DescriptorSet_validateSlot_validSlots:
  assumes "DescriptorSet_validateSlot rc s = Inr s'"
  shows "validSlots (fst s') = insert (vkSurface rc, unat (activeIndex rc)) (validSlots (fst s))"
proof -
  let ?ds = "fst s" and ?k = "unat (activeIndex rc)" and ?sf = "vkSurface rc"
  let ?psd = "case perSurfaceData ?ds ?sf of
                None \<Rightarrow> PerSurfaceData_ctor (activeCount ?ds) (vkDevice rc) | Some psd \<Rightarrow> psd"
  from assms have k: "?k < length (psd_valid ?psd)" "?k < length (psd_descriptorSet ?psd)"
    by (auto simp: DescriptorSet_validateSlot_def Let_def split: if_splits)
  have fresh: "perSurfaceData ?ds ?sf = None \<Longrightarrow> \<forall>j < length (psd_valid ?psd). \<not> psd_valid ?psd ! j"
    by (simp add: PerSurfaceData_ctor_valid)
  show ?thesis
  proof (cases "psd_valid ?psd ! ?k")
    case True
    with assms k have s': "fst s' = ?ds\<lparr> perSurfaceData := (perSurfaceData ?ds)(?sf \<mapsto> ?psd) \<rparr>"
      by (auto simp: DescriptorSet_validateSlot_def Let_def)
    from True fresh k have some: "perSurfaceData ?ds ?sf = Some ?psd"
      by (cases "perSurfaceData ?ds ?sf") auto
    then have "(perSurfaceData ?ds)(?sf \<mapsto> ?psd) = perSurfaceData ?ds" by auto
    with s' have "validSlots (fst s') = validSlots ?ds" by (simp add: validSlots_def)
    moreover have "(?sf, ?k) \<in> validSlots ?ds"
      using some True k by (auto simp: validSlots_def)
    ultimately show ?thesis by auto
  next
    case False
    with assms k obtain h where
      s': "fst s' = ?ds\<lparr> perSurfaceData := (perSurfaceData ?ds)(?sf \<mapsto>
                 ?psd\<lparr> psd_descriptorSet := (psd_descriptorSet ?psd)[?k := h],
                       psd_valid := (psd_valid ?psd)[?k := True] \<rparr>) \<rparr>"
      by (auto simp: DescriptorSet_validateSlot_def Let_def split: prod.splits)
    have old: "\<And>j. j < length (psd_valid ?psd) \<Longrightarrow> psd_valid ?psd ! j \<longleftrightarrow> (?sf, j) \<in> validSlots ?ds"
      using fresh by (cases "perSurfaceData ?ds ?sf") (auto simp: validSlots_def)
    have lenold: "\<And>j. (?sf, j) \<in> validSlots ?ds \<Longrightarrow> j < length (psd_valid ?psd)"
      by (auto simp: validSlots_def)
    have "\<And>sf j. (sf, j) \<in> validSlots (fst s') \<longleftrightarrow> (sf, j) \<in> insert (?sf, ?k) (validSlots ?ds)"
    proof
      fix sf j assume "(sf, j) \<in> validSlots (fst s')"
      then show "(sf, j) \<in> insert (?sf, ?k) (validSlots ?ds)"
        unfolding s' using old
        by (cases "sf = ?sf"; cases "j = ?k") (auto simp: validSlots_def nth_list_update)
    next
      fix sf j assume "(sf, j) \<in> insert (?sf, ?k) (validSlots ?ds)"
      then consider "sf = ?sf" "j = ?k" | "(sf, j) \<in> validSlots ?ds" by auto
      then show "(sf, j) \<in> validSlots (fst s')"
      proof cases
        case 1
        then show ?thesis unfolding s' using k by (simp add: validSlots_def)
      next
        case 2
        show ?thesis
        proof (cases "sf = ?sf")
          case True
          with 2 lenold old have "j < length (psd_valid ?psd)" "psd_valid ?psd ! j" by auto
          then show ?thesis unfolding s' using True
            by (cases "j = ?k") (simp_all add: validSlots_def nth_list_update)
        next
          case False
          with 2 show ?thesis unfolding s' by (simp add: validSlots_def)
        qed
      qed
    qed
    then show ?thesis by (intro set_eqI) (simp only: split_paired_all)
  qed
qed

lemma validSlots_ctor: "validSlots (DescriptorSet_ctor lay pl) = {}"
  by (simp add: validSlots_def DescriptorSet_ctor_def)

lemma DescriptorSet_getHandle_fails:
  "(vkSurface rc, unat (activeIndex rc)) \<notin> validSlots ds \<Longrightarrow> DescriptorSet_getHandle ds rc = Inl NotValidated"
  by (auto simp: DescriptorSet_getHandle_def validSlots_def Let_def split: option.splits)

lemma DescriptorSet_validateSlot_sized:
  assumes "DescriptorSet_validateSlot rc s = Inr s'" and "slotsSized (fst s)"
  shows "slotsSized (fst s') \<and> activeCount (fst s') = activeCount (fst s)"
proof -
  let ?ds = "fst s"
  let ?psd = "case perSurfaceData ?ds (vkSurface rc) of
                None \<Rightarrow> PerSurfaceData_ctor (activeCount ?ds) (vkDevice rc) | Some psd \<Rightarrow> psd"
  have l: "length (psd_descriptorSet ?psd) = unat (activeCount ?ds) \<and> length (psd_valid ?psd) = unat (activeCount ?ds)"
    using assms(2)
    by (cases "perSurfaceData ?ds (vkSurface rc)")
       (simp_all add: slotsSized_def PerSurfaceData_ctor_valid PerSurfaceData_ctor_descriptorSet)
  from assms(1) have ac: "activeCount (fst s') = activeCount ?ds"
    by (auto simp: DescriptorSet_validateSlot_def Let_def split: if_splits prod.splits)
  from assms(1) have other: "\<And>sf. sf \<noteq> vkSurface rc \<Longrightarrow> perSurfaceData (fst s') sf = perSurfaceData ?ds sf"
    by (auto simp: DescriptorSet_validateSlot_def Let_def split: if_splits prod.splits)
  from assms(1) obtain psd' where this_one: "perSurfaceData (fst s') (vkSurface rc) = Some psd'"
    and len: "length (psd_descriptorSet psd') = length (psd_descriptorSet ?psd)"
             "length (psd_valid psd') = length (psd_valid ?psd)"
    by (auto simp: DescriptorSet_validateSlot_def Let_def split: if_splits prod.splits)
  have "slotsSized (fst s')"
    unfolding slotsSized_def
  proof (intro allI impI)
    fix sf psd assume p: "perSurfaceData (fst s') sf = Some psd"
    show "length (psd_descriptorSet psd) = unat (activeCount (fst s')) \<and>
          length (psd_valid psd) = unat (activeCount (fst s'))"
    proof (cases "sf = vkSurface rc")
      case True
      with p this_one have "psd = psd'" by simp
      with len l ac show ?thesis by simp
    next
      case False
      with p other assms(2) ac show ?thesis by (simp add: slotsSized_def)
    qed
  qed
  with ac show ?thesis by simp
qed

lemma validDevices_internalInvalidate: "validDevices (internalInvalidate p) = {}"
  by (auto simp: validDevices_def internalInvalidate_def)

lemma DescriptorSet_validateSlot_in_range:
  assumes p: "perSurfaceData ds (vkSurface rc) = Some psd"
    and k: "unat (activeIndex rc) < length (psd_valid psd)" "unat (activeIndex rc) < length (psd_descriptorSet psd)"
  shows "\<exists>ds' vk' h. DescriptorSet_validateSlot rc (ds, vk) = Inr (ds', vk') \<and>
           DescriptorSet_getHandle ds' rc = Inr h \<and>
           (vkSurface rc, unat (activeIndex rc)) \<in> validSlots ds'"
proof (cases "psd_valid psd ! unat (activeIndex rc)")
  case True
  with p k have "DescriptorSet_validateSlot rc (ds, vk) =
      Inr (ds\<lparr> perSurfaceData := (perSurfaceData ds)(vkSurface rc \<mapsto> psd) \<rparr>, vk)"
    by (simp add: DescriptorSet_validateSlot_def Let_def)
  moreover have "DescriptorSet_getHandle (ds\<lparr> perSurfaceData := (perSurfaceData ds)(vkSurface rc \<mapsto> psd) \<rparr>) rc
      = Inr (psd_descriptorSet psd ! unat (activeIndex rc))"
    using True k by (simp add: DescriptorSet_getHandle_def Let_def)
  moreover have "(vkSurface rc, unat (activeIndex rc)) \<in>
      validSlots (ds\<lparr> perSurfaceData := (perSurfaceData ds)(vkSurface rc \<mapsto> psd) \<rparr>)"
    using True k by (simp add: validSlots_def)
  ultimately show ?thesis by blast
next
  case False
  let ?h = "if psd_descriptorSet psd ! unat (activeIndex rc) = VK_NULL_HANDLE
            then Suc (length vk) else psd_descriptorSet psd ! unat (activeIndex rc)"
  let ?vk = "if psd_descriptorSet psd ! unat (activeIndex rc) = VK_NULL_HANDLE
             then vk @ [(NativeDescriptorSet, vkDevice rc, Suc (length vk))] else vk"
  let ?ds' = "ds\<lparr> perSurfaceData := (perSurfaceData ds)(vkSurface rc \<mapsto>
                 psd\<lparr> psd_descriptorSet := (psd_descriptorSet psd)[unat (activeIndex rc) := ?h],
                      psd_valid := (psd_valid psd)[unat (activeIndex rc) := True] \<rparr>) \<rparr>"
  from False p k have "DescriptorSet_validateSlot rc (ds, vk) =
      Inr (?ds', ?vk @ [(NativeBindingWrite, vkDevice rc, ?h)])"
    by (simp add: DescriptorSet_validateSlot_def Let_def vkCreate_def)
  moreover have "DescriptorSet_getHandle ?ds' rc = Inr ?h"
    using k by (simp add: DescriptorSet_getHandle_def Let_def)
  moreover have "(vkSurface rc, unat (activeIndex rc)) \<in> validSlots ?ds'"
    using k by (simp add: validSlots_def)
  ultimately show ?thesis by blast
qed

section \<open>Facts about invalidation\<close>

lemma DescriptorSet_invalidate_twice:
  "DescriptorSet_invalidate (DescriptorSet_invalidate ds) = DescriptorSet_invalidate ds"
  by (simp add: DescriptorSet_invalidate_def option.map_comp o_def)

lemma validSlots_invalidate: "validSlots (DescriptorSet_invalidate ds) = {}"
  by (auto simp: validSlots_def DescriptorSet_invalidate_def)

lemma DescriptorSet_invalidate_entry:
  "perSurfaceData ds sf = Some psd \<Longrightarrow>
   perSurfaceData (DescriptorSet_invalidate ds) sf =
     Some (psd\<lparr> psd_valid := replicate (length (psd_valid psd)) False \<rparr>)"
  by (simp add: DescriptorSet_invalidate_def)

lemma Descriptor_invalidate_sets:
  "descriptorSets (Descriptor_invalidate d w) x =
     (if x = owner d then map_option DescriptorSet_invalidate (descriptorSets w x) else descriptorSets w x)"
  by (simp add: Descriptor_invalidate_def split: option.splits)

lemma Descriptor_invalidate_observers: "observers (Descriptor_invalidate d w) = observers w"
  by (simp add: Descriptor_invalidate_def split: option.splits)

lemma fold_Descriptor_invalidate_sets:
  "descriptorSets (fold Descriptor_invalidate ds w) x =
     (if x \<in> owner ` set ds then map_option DescriptorSet_invalidate (descriptorSets w x)
      else descriptorSets w x)"
proof (induction ds arbitrary: w)
  case Nil
  then show ?case by simp
next
  case (Cons d ds)
  show ?case
    by (simp add: Cons.IH Descriptor_invalidate_sets option.map_comp o_def DescriptorSet_invalidate_twice)
qed

lemma fold_register_keep:
  "d \<in> set (obs r) \<Longrightarrow> d \<in> set (fold (\<lambda>r obs. obs(r := obs r @ [d])) rs obs r)"
  by (induction rs arbitrary: obs) auto

lemma fold_register_mem:
  "r \<in> set rs \<Longrightarrow> d \<in> set (fold (\<lambda>r obs. obs(r := obs r @ [d])) rs obs r)"
proof (induction rs arbitrary: obs)
  case Nil
  then show ?case by simp
next
  case (Cons r' rs)
  show ?case
  proof (cases "r' = r")
    case True
    show ?thesis unfolding True fold_simps by (rule fold_register_keep) simp
  next
    case False
    with Cons show ?thesis by simp
  qed
qed

lemma setDescriptor_registers:
  assumes "descriptorSets w a = Some A" and "r \<in> set rs"
  shows "\<exists>d \<in> set (observers (setDescriptor a slot rs kind w) r). owner d = a"
proof -
  let ?d = "\<lparr> owner = a, resources = rs, d_descriptorType = kind \<rparr>"
  have "\<And>w'. ?d \<in> set (observers (Descriptor_invalidate ?d (registerInResources ?d w')) r)"
    using assms(2) by (simp add: Descriptor_invalidate_observers registerInResources_def fold_register_mem)
  with assms(1) have "?d \<in> set (observers (setDescriptor a slot rs kind w) r)"
    by (simp add: setDescriptor_def Let_def)
  then show ?thesis by force
qed

section \<open>Facts about resizing the in-flight count of a set\<close>

lemma resizeInFlightCount_sized: "slotsSized (resizeInFlightCount M ds)"
  by (auto simp: slotsSized_def resizeInFlightCount_def resize_lengths)

lemma resizeInFlightCount_activeCount: "activeCount (resizeInFlightCount M ds) = M"
  by (simp add: resizeInFlightCount_def)

lemma resizeInFlightCount_dom:
  "dom (perSurfaceData (resizeInFlightCount M ds)) = dom (perSurfaceData ds)"
  by (auto simp: resizeInFlightCount_def)

lemma resize_valid_flag:
  "k < length (psd_valid (resize psd M)) \<Longrightarrow> psd_valid (resize psd M) ! k \<Longrightarrow>
   k < length (psd_valid psd) \<and> psd_valid psd ! k"
  by (cases "k < length (psd_valid psd)")
     (simp_all add: resize_def length_vector_resize vector_resize_old vector_resize_new)

lemma resizeInFlightCount_validSlots: "validSlots (resizeInFlightCount M ds) \<subseteq> validSlots ds"
proof
  fix x assume x: "x \<in> validSlots (resizeInFlightCount M ds)"
  obtain sf k where xk: "x = (sf, k)" by (cases x)
  from x xk obtain psd where p: "perSurfaceData ds sf = Some psd"
    and k: "k < length (psd_valid (resize psd M))" "psd_valid (resize psd M) ! k"
    by (auto simp: validSlots_def resizeInFlightCount_def)
  from resize_valid_flag [OF k] p xk show "x \<in> validSlots ds"
    by (simp add: validSlots_def)
qed

lemma DescriptorSet_validateSlot_ok:
  assumes "slotsSized ds" and "unat (activeIndex rc) < unat (activeCount ds)"
  shows "\<exists>s'. DescriptorSet_validateSlot rc (ds, vk) = Inr s'"
proof -
  let ?psd = "case perSurfaceData ds (vkSurface rc) of
                None \<Rightarrow> PerSurfaceData_ctor (activeCount ds) (vkDevice rc) | Some psd \<Rightarrow> psd"
  have "length (psd_descriptorSet ?psd) = unat (activeCount ds) \<and> length (psd_valid ?psd) = unat (activeCount ds)"
    using assms(1)
    by (cases "perSurfaceData ds (vkSurface rc)")
       (simp_all add: slotsSized_def PerSurfaceData_ctor_valid PerSurfaceData_ctor_descriptorSet)
  with assms(2) show ?thesis
    by (simp add: DescriptorSet_validateSlot_def Let_def split_beta)
qed

lemma DescriptorSet_validateSlot_dom:
  "DescriptorSet_validateSlot rc s = Inr s' \<Longrightarrow>
   dom (perSurfaceData (fst s')) = insert (vkSurface rc) (dom (perSurfaceData (fst s)))"
  by (auto simp: DescriptorSet_validateSlot_def Let_def split: if_splits prod.splits)

lemma DescriptorSet_validate_ok:
  assumes sized: "slotsSized (fst s)" and wf: "unat (activeIndex rc) < unat (imageCount rc)"
  shows "\<exists>s'. DescriptorSet_validate rc s = Inr s' \<and> slotsSized (fst s') \<and>
           activeCount (fst s') = imageCount rc \<and>
           dom (perSurfaceData (fst s')) = insert (vkSurface rc) (dom (perSurfaceData (fst s))) \<and>
           validSlots (fst s') \<subseteq> insert (vkSurface rc, unat (activeIndex rc)) (validSlots (fst s)) \<and>
           (vkSurface rc, unat (activeIndex rc)) \<in> validSlots (fst s')"
proof -
  let ?ds = "if imageCount rc = activeCount (fst s) then fst s
             else resizeInFlightCount (imageCount rc) (fst s)"
  have s1: "slotsSized ?ds" using sized by (simp add: resizeInFlightCount_sized)
  have a1: "activeCount ?ds = imageCount rc" by (simp add: resizeInFlightCount_activeCount)
  have d1: "dom (perSurfaceData ?ds) = dom (perSurfaceData (fst s))"
    by (simp add: resizeInFlightCount_dom)
  have v1: "validSlots ?ds \<subseteq> validSlots (fst s)"
    using resizeInFlightCount_validSlots by auto
  from DescriptorSet_validateSlot_ok [OF s1, of rc "snd s"] wf a1
  obtain s' where r: "DescriptorSet_validateSlot rc (?ds, snd s) = Inr s'" by auto
  have r': "DescriptorSet_validate rc s = Inr s'"
    using r by (simp add: DescriptorSet_validate_def)
  from DescriptorSet_validateSlot_sized [OF r] s1 a1
  have "slotsSized (fst s')" "activeCount (fst s') = imageCount rc" by simp_all
  moreover from DescriptorSet_validateSlot_dom [OF r] d1
  have "dom (perSurfaceData (fst s')) = insert (vkSurface rc) (dom (perSurfaceData (fst s)))" by simp
  moreover from DescriptorSet_validateSlot_validSlots [OF r] v1
  have "validSlots (fst s') \<subseteq> insert (vkSurface rc, unat (activeIndex rc)) (validSlots (fst s))"
    by auto
  moreover from DescriptorSet_validateSlot_validSlots [OF r]
  have "(vkSurface rc, unat (activeIndex rc)) \<in> validSlots (fst s')" by simp
  ultimately show ?thesis using r' by blast
qed

lemma DescriptorSet_validate_all_ok:
  "slotsSized (fst s) \<Longrightarrow> \<forall>rc \<in> set rcs. unat (activeIndex rc) < unat (imageCount rc) \<Longrightarrow>
   \<exists>s'. DescriptorSet_validate_all rcs s = Inr s' \<and> slotsSized (fst s') \<and>
        activeCount (fst s') = last (activeCount (fst s) # map imageCount rcs) \<and>
        dom (perSurfaceData (fst s')) = dom (perSurfaceData (fst s)) \<union> vkSurface ` set rcs \<and>
        validSlots (fst s') \<subseteq>
          validSlots (fst s) \<union> (\<lambda>rc. (vkSurface rc, unat (activeIndex rc))) ` set rcs"
proof (induction rcs arbitrary: s)
  case Nil
  then show ?case by simp
next
  case (Cons rc rcs)
  from Cons.prems have wf: "unat (activeIndex rc) < unat (imageCount rc)"
    and rest: "\<forall>rc \<in> set rcs. unat (activeIndex rc) < unat (imageCount rc)"
    by simp_all
  from DescriptorSet_validate_ok [OF Cons.prems(1) wf]
  obtain s1 where r1: "DescriptorSet_validate rc s = Inr s1" and z1: "slotsSized (fst s1)"
    and a1: "activeCount (fst s1) = imageCount rc"
    and d1: "dom (perSurfaceData (fst s1)) = insert (vkSurface rc) (dom (perSurfaceData (fst s)))"
    and v1: "validSlots (fst s1) \<subseteq> insert (vkSurface rc, unat (activeIndex rc)) (validSlots (fst s))"
    by blast
  from Cons.IH [OF z1 rest]
  obtain s' where r: "DescriptorSet_validate_all rcs s1 = Inr s'" and z: "slotsSized (fst s')"
    and a: "activeCount (fst s') = last (activeCount (fst s1) # map imageCount rcs)"
    and d: "dom (perSurfaceData (fst s')) = dom (perSurfaceData (fst s1)) \<union> vkSurface ` set rcs"
    and v: "validSlots (fst s') \<subseteq>
          validSlots (fst s1) \<union> (\<lambda>rc. (vkSurface rc, unat (activeIndex rc))) ` set rcs"
    by blast
  have "DescriptorSet_validate_all (rc # rcs) s = Inr s'" using r1 r by simp
  moreover have "activeCount (fst s') = last (activeCount (fst s) # map imageCount (rc # rcs))"
    using a a1 by simp
  moreover have "dom (perSurfaceData (fst s')) = dom (perSurfaceData (fst s)) \<union> vkSurface ` set (rc # rcs)"
    using d d1 by auto
  moreover have "validSlots (fst s') \<subseteq>
          validSlots (fst s) \<union> (\<lambda>rc. (vkSurface rc, unat (activeIndex rc))) ` set (rc # rcs)"
    using v v1 by auto
  ultimately show ?case using z by blast
qed

lemma slotsSized_ctor: "slotsSized (DescriptorSet_ctor lay pl)"
  by (simp add: slotsSized_def DescriptorSet_ctor_def)

lemma DescriptorSet_getHandle_ok:
  assumes "(vkSurface rc, unat (activeIndex rc)) \<in> validSlots ds" and "slotsSized ds"
  shows "\<exists>h. DescriptorSet_getHandle ds rc = Inr h"
  using assms by (auto simp: DescriptorSet_getHandle_def validSlots_def slotsSized_def Let_def)

section \<open>Claims settled on the header's own code\<close>

text \<open>
  C7. \<open>hasDynamicState(state)\<close> is true exactly when some element of \<open>dynamicStates\<close>
  equals \<open>state\<close>, and \<open>hasShaderStage(stage)\<close> exactly when some element of
  \<open>shaderStages\<close> has that \<open>stage\<close> field. Both are \<open>const\<close> members that only read
  the two vectors: the embedding returns the boolean and no pipeline, there being no
  write to return.
\<close>

theorem hasDynamicState_hasShaderStage_exact:
  "(hasDynamicState p state \<longleftrightarrow> (\<exists>i < length (dynamicStates p). dynamicStates p ! i = state)) \<and>
   (hasShaderStage p st \<longleftrightarrow> (\<exists>i < length (shaderStages p). stage (shaderStages p ! i) = st))"
proof
  show "hasDynamicState p state \<longleftrightarrow> (\<exists>i < length (dynamicStates p). dynamicStates p ! i = state)"
    by (simp add: hasDynamicState_def hasDynamicState_loop_iff in_set_conv_nth)
  have "st \<in> stage ` set (shaderStages p) \<longleftrightarrow> st \<in> set (map stage (shaderStages p))"
    by simp
  also have "\<dots> \<longleftrightarrow> (\<exists>i < length (shaderStages p). stage (shaderStages p ! i) = st)"
    unfolding in_set_conv_nth by auto
  finally show "hasShaderStage p st \<longleftrightarrow> (\<exists>i < length (shaderStages p). stage (shaderStages p ! i) = st)"
    by (simp add: hasShaderStage_def hasShaderStage_loop_iff)
qed

theorem hasDynamicState_hasShaderStage_witness:
  "hasDynamicState \<lparr> pipelineCache = 0, pipelineLayout = 0, perDeviceData = Map.empty, dynamicStates = [VK_DYNAMIC_STATE_VIEWPORT, VK_DYNAMIC_STATE_SCISSOR],
                      shaderStages = [\<lparr> stage = VK_SHADER_STAGE_VERTEX_BIT, shaderModule = 1, entryPoint = ''main'' \<rparr>] \<rparr>
                    VK_DYNAMIC_STATE_SCISSOR
   \<and> \<not> hasShaderStage \<lparr> pipelineCache = 0, pipelineLayout = 0, perDeviceData = Map.empty, dynamicStates = [VK_DYNAMIC_STATE_VIEWPORT, VK_DYNAMIC_STATE_SCISSOR],
                      shaderStages = [\<lparr> stage = VK_SHADER_STAGE_VERTEX_BIT, shaderModule = 1, entryPoint = ''main'' \<rparr>] \<rparr>
                    VK_SHADER_STAGE_FRAGMENT_BIT"
  using hasDynamicState_hasShaderStage_exact
    [of "\<lparr> pipelineCache = 0, pipelineLayout = 0, perDeviceData = Map.empty, dynamicStates = [VK_DYNAMIC_STATE_VIEWPORT, VK_DYNAMIC_STATE_SCISSOR],
           shaderStages = [\<lparr> stage = VK_SHADER_STAGE_VERTEX_BIT, shaderModule = 1, entryPoint = ''main'' \<rparr>] \<rparr>"
        VK_DYNAMIC_STATE_SCISSOR VK_SHADER_STAGE_FRAGMENT_BIT]
  by (auto simp: less_Suc_eq)

text \<open>
  C8. Invariant of the per-surface state. After the constructor and after every
  \<open>resize\<close> that follows it, the handle vector and the validity vector have the same
  length, the in-flight count last passed in; and a growing \<open>resize\<close> of an entry whose
  two vectors agree in length puts the null handle and the flag \<open>false\<close> into every slot
  it adds.
\<close>

theorem PerSurfaceData_invariant:
  "length (psd_descriptorSet (resize_all (PerSurfaceData_ctor ac0 d) acs)) = unat (last (ac0 # acs)) \<and>
   length (psd_valid (resize_all (PerSurfaceData_ctor ac0 d) acs)) = unat (last (ac0 # acs)) \<and>
   (length (psd_descriptorSet psd) = length (psd_valid psd) \<longrightarrow>
      (\<forall>i. length (psd_valid psd) \<le> i \<and> i < unat ac \<longrightarrow>
         psd_descriptorSet (resize psd ac) ! i = VK_NULL_HANDLE \<and> \<not> psd_valid (resize psd ac) ! i))"
proof (intro conjI impI allI)
  show "length (psd_descriptorSet (resize_all (PerSurfaceData_ctor ac0 d) acs)) = unat (last (ac0 # acs))"
    by (cases acs rule: rev_cases) (simp_all add: PerSurfaceData_ctor_def resize_lengths resize_all_snoc)
  show "length (psd_valid (resize_all (PerSurfaceData_ctor ac0 d) acs)) = unat (last (ac0 # acs))"
    by (cases acs rule: rev_cases) (simp_all add: PerSurfaceData_ctor_def resize_lengths resize_all_snoc)
next
  fix i
  assume len: "length (psd_descriptorSet psd) = length (psd_valid psd)"
    and i: "length (psd_valid psd) \<le> i \<and> i < unat ac"
  then show "psd_descriptorSet (resize psd ac) ! i = VK_NULL_HANDLE"
    by (simp add: resize_def vector_resize_new)
  from i show "\<not> psd_valid (resize psd ac) ! i"
    by (simp add: resize_def vector_resize_new)
qed

theorem PerSurfaceData_invariant_witness:
  "length (psd_descriptorSet (resize_all (PerSurfaceData_ctor 1 7) [3, 2])) = 2 \<and>
   length (psd_valid (resize_all (PerSurfaceData_ctor 1 7) [3, 2])) = 2 \<and>
   psd_descriptorSet (resize \<lparr> psd_descriptorSet = [5], psd_valid = [True], psd_device = 7 \<rparr> 3) ! 2 = VK_NULL_HANDLE \<and>
   \<not> psd_valid (resize \<lparr> psd_descriptorSet = [5], psd_valid = [True], psd_device = 7 \<rparr> 3) ! 2"
  using PerSurfaceData_invariant
    [of 1 7 "[3, 2]" "\<lparr> psd_descriptorSet = [5], psd_valid = [True], psd_device = 7 \<rparr>" 3]
  by simp

section \<open>The instance offsets of the GPU-culling example\<close>

text \<open>
  The running sum of \<open>prepareStaticBuffersForRendering\<close> is a \<open>uint32_t\<close>. With 65536
  instances of one type and 65537 geometries of that type, every instance count is
  65536 and the counts of geometries 0 to 65535 add up to \<open>2^32\<close>; the function returns
  and the \<open>firstInstance\<close> it has written into command 65536 is 0, and the offset buffer
  has 65536 entries where the counts add up to \<open>2^32 + 65536\<close>.
\<close>

theorem prepareStaticBuffers_firstInstance_wraps_counterexample:
  "\<exists>app'. prepareStaticBuffersForRendering 0
       \<lparr> renderData = [\<lparr> staticInstanceData = replicate 65536 \<lparr> sid_typeID = 0, sid_materialVariant = 0 \<rparr>,
                        dynamicObjectData = [] \<rparr>],
         staticAssetBuffer_numTypesID = 1, dynamicAssetBuffer_numTypesID = 1,
         staticInstanceSbo = [],
         staticResultsSbo = replicate 65537 \<lparr> firstInstance = 7 \<rparr>,
         staticResultsGeomToType = replicate 65537 0, staticOffValuesSbo = [],
         dynamicInstanceSbo = [],
         dynamicResultsSbo = [],
         dynamicResultsGeomToType = [], dynamicOffValuesSbo = [],
         blimpID = 1, carID = 2, airplaneID = 3,
         bonesReset = (Map.empty :: u32 \<rightharpoonup> nat list),
         blimpPropL = 1, blimpPropR = 2,
         carWheel0 = 1, carWheel1 = 2, carWheel2 = 3, carWheel3 = 4,
         airplaneProp = 1 \<rparr> = Inr app' \<and>
     unat (firstInstance (staticResultsSbo app' ! 65536)) = 0 \<and>
     (\<Sum>j<65536. length (filter (\<lambda>x. sid_typeID x = replicate 65537 (0::u32) ! j)
                               (replicate 65536 \<lparr> sid_typeID = 0, sid_materialVariant = 0 \<rparr>)))
       = 4294967296 \<and>
     length (staticOffValuesSbo app') = 65536 \<and>
     (\<Sum>j<65537. length (filter (\<lambda>x. sid_typeID x = replicate 65537 (0::u32) ! j)
                               (replicate 65536 \<lparr> sid_typeID = 0, sid_materialVariant = 0 \<rparr>)))
       = 4295032832"
proof -
  let ?insts = "replicate 65536 \<lparr> sid_typeID = 0, sid_materialVariant = 0 \<rparr>"
  let ?geom = "replicate 65537 (0::u32)"
  let ?res0 = "replicate 65537 \<lparr> firstInstance = 7 \<rparr>"
  let ?c = "\<lambda>j. length (filter (\<lambda>x. sid_typeID x = ?geom ! j) ?insts)"
  have cnt: "?c j = 65536" if "j < 65537" for j
    using that by simp
  have "(\<Sum>j<65536. ?c j) = (\<Sum>j<(65536::nat). (65536::nat))"
    by (rule sum.cong) (simp_all add: cnt)
  then have s1: "(\<Sum>j<65536. ?c j) = 4294967296" by simp
  have "(\<Sum>j<65537. ?c j) = (\<Sum>j<(65537::nat). (65536::nat))"
    by (rule sum.cong) (simp_all add: cnt)
  then have s2: "(\<Sum>j<65537. ?c j) = 4295032832" by simp
  have a1: "\<forall>x \<in> set ?insts. sid_typeID x < 1" by simp
  have a2: "\<forall>g \<in> set ?geom. g < 1" by simp
  have a3: "length ?geom \<le> length ?res0" by simp
  have a4: "length ?insts < 2 ^ 32" "length ?geom < 2 ^ 32" by simp_all
  from recalculateOffsets_prefix_sum [OF a1 a2 a3 a4]
  obtain results offValues where
    r: "recalculateOffsets 1 (map sid_typeID ?insts) ?geom ?res0 = Inr (results, offValues)"
    and f: "\<forall>i < length ?geom. unat (firstInstance (results ! i)) = (\<Sum>j<i. ?c j) mod 2 ^ 32"
    and l: "length offValues = (\<Sum>j<length ?geom. ?c j) mod 2 ^ 32"
    by blast
  have "(65536::nat) < length ?geom" by simp
  with f have "unat (firstInstance (results ! 65536)) = (\<Sum>j<65536. ?c j) mod 2 ^ 32"
    by blast
  with s1 have f1: "unat (firstInstance (results ! 65536)) = 0" by simp
  from l s2 have l1: "length offValues = 65536" by simp
  have "prepareStaticBuffersForRendering 0
       \<lparr> renderData = [\<lparr> staticInstanceData = replicate 65536 \<lparr> sid_typeID = 0, sid_materialVariant = 0 \<rparr>,
                        dynamicObjectData = [] \<rparr>],
         staticAssetBuffer_numTypesID = 1, dynamicAssetBuffer_numTypesID = 1,
         staticInstanceSbo = [],
         staticResultsSbo = replicate 65537 \<lparr> firstInstance = 7 \<rparr>,
         staticResultsGeomToType = replicate 65537 0, staticOffValuesSbo = [],
         dynamicInstanceSbo = [],
         dynamicResultsSbo = [],
         dynamicResultsGeomToType = [], dynamicOffValuesSbo = [],
         blimpID = 1, carID = 2, airplaneID = 3,
         bonesReset = (Map.empty :: u32 \<rightharpoonup> nat list),
         blimpPropL = 1, blimpPropR = 2,
         carWheel0 = 1, carWheel1 = 2, carWheel2 = 3, carWheel3 = 4,
         airplaneProp = 1 \<rparr> =
     Inr (\<lparr> renderData = [\<lparr> staticInstanceData = replicate 65536 \<lparr> sid_typeID = 0, sid_materialVariant = 0 \<rparr>,
                        dynamicObjectData = [] \<rparr>],
         staticAssetBuffer_numTypesID = 1, dynamicAssetBuffer_numTypesID = 1,
         staticInstanceSbo = [],
         staticResultsSbo = replicate 65537 \<lparr> firstInstance = 7 \<rparr>,
         staticResultsGeomToType = replicate 65537 0, staticOffValuesSbo = [],
         dynamicInstanceSbo = [],
         dynamicResultsSbo = [],
         dynamicResultsGeomToType = [], dynamicOffValuesSbo = [],
         blimpID = 1, carID = 2, airplaneID = 3,
         bonesReset = (Map.empty :: u32 \<rightharpoonup> nat list),
         blimpPropL = 1, blimpPropR = 2,
         carWheel0 = 1, carWheel1 = 2, carWheel2 = 3, carWheel3 = 4,
         airplaneProp = 1 \<rparr>
          \<lparr> staticInstanceSbo := ?insts, staticResultsSbo := results, staticOffValuesSbo := offValues \<rparr>)"
    using r by (simp add: prepareStaticBuffersForRendering_def)
  with f1 l1 s1 s2 show ?thesis by simp
qed

text \<open>
  C10, as the code has it. In \<open>prepareStaticBuffersForRendering\<close>, and in the same way
  in \<open>prepareDynamicBuffersForRendering\<close>, the \<open>firstInstance\<close> fields written back into
  the indirect draw commands are the exclusive prefix sums of the per-geometry instance
  counts modulo \<open>2^32\<close>, and the offset buffer gets as many entries as the counts add up
  to, modulo \<open>2^32\<close>; they are the sums themselves when the total is below \<open>2^32\<close>. The
  instance count of geometry \<open>j\<close> is the number of instances whose \<open>typeID\<close> is
  \<open>geomToType[j]\<close>. The function returns when the render index is within the array, the
  type ids of the instances and of the geometries are below the number of types, there
  is a draw command for every geometry and the two vectors have fewer than \<open>2^32\<close>
  elements; the dynamic variant, whose object loop follows the offsets, needs in addition
  that for every object of the blimp, car or airplane type \<open>bonesReset\<close> has an entry for
  the type and the bone indices of the type are within that entry and below
  \<open>MAX_BONES\<close>. It then also stores one instance per object, of the same type.
\<close>

theorem prepareBuffers_firstInstance_prefix_sum:
  "(let insts = staticInstanceData (renderData app ! unat renderIndex);
        geom = staticResultsGeomToType app;
        count = (\<lambda>j. length (filter (\<lambda>x. sid_typeID x = geom ! j) insts));
        total = (\<Sum>j<length geom. count j)
    in unat renderIndex < length (renderData app) \<and>
       (\<forall>x \<in> set insts. sid_typeID x < staticAssetBuffer_numTypesID app) \<and>
       (\<forall>g \<in> set geom. g < staticAssetBuffer_numTypesID app) \<and>
       length geom \<le> length (staticResultsSbo app) \<and>
       length insts < 2 ^ 32 \<and> length geom < 2 ^ 32
       \<longrightarrow>
       (\<exists>app'. prepareStaticBuffersForRendering renderIndex app = Inr app' \<and>
          length (staticResultsSbo app') = length (staticResultsSbo app) \<and>
          (\<forall>i < length geom.
             unat (firstInstance (staticResultsSbo app' ! i)) = (\<Sum>j<i. count j) mod 2 ^ 32) \<and>
          length (staticOffValuesSbo app') = total mod 2 ^ 32 \<and>
          (total < 2 ^ 32 \<longrightarrow>
             (\<forall>i < length geom. unat (firstInstance (staticResultsSbo app' ! i)) = (\<Sum>j<i. count j)) \<and>
             length (staticOffValuesSbo app') = total)))
   \<and>
   (let objs = dynamicObjectData (renderData app ! unat renderIndex);
        geom = dynamicResultsGeomToType app;
        count = (\<lambda>j. length (filter (\<lambda>x. dod_typeID x = geom ! j) objs));
        total = (\<Sum>j<length geom. count j)
    in unat renderIndex < length (renderData app) \<and>
       (\<forall>x \<in> set objs. dod_typeID x < dynamicAssetBuffer_numTypesID app) \<and>
       (\<forall>g \<in> set geom. g < dynamicAssetBuffer_numTypesID app) \<and>
       length geom \<le> length (dynamicResultsSbo app) \<and>
       length objs < 2 ^ 32 \<and> length geom < 2 ^ 32 \<and>
       (\<forall>x \<in> set objs.
          (dod_typeID x = blimpID app \<longrightarrow>
             (\<exists>ms. bonesReset app (blimpID app) = Some ms \<and>
                   (\<forall>b \<in> set [blimpPropL app, blimpPropR app]. unat b < length ms \<and> unat b < MAX_BONES))) \<and>
          (dod_typeID x = carID app \<longrightarrow>
             (\<exists>ms. bonesReset app (carID app) = Some ms \<and>
                   (\<forall>b \<in> set [carWheel0 app, carWheel1 app, carWheel2 app, carWheel3 app].
                      unat b < length ms \<and> unat b < MAX_BONES))) \<and>
          (dod_typeID x = airplaneID app \<longrightarrow>
             (\<exists>ms. bonesReset app (airplaneID app) = Some ms \<and>
                   (\<forall>b \<in> set [airplaneProp app]. unat b < length ms \<and> unat b < MAX_BONES))))
       \<longrightarrow>
       (\<exists>app'. prepareDynamicBuffersForRendering renderIndex app = Inr app' \<and>
          length (dynamicResultsSbo app') = length (dynamicResultsSbo app) \<and>
          (\<forall>i < length geom.
             unat (firstInstance (dynamicResultsSbo app' ! i)) = (\<Sum>j<i. count j) mod 2 ^ 32) \<and>
          length (dynamicOffValuesSbo app') = total mod 2 ^ 32 \<and>
          (total < 2 ^ 32 \<longrightarrow>
             (\<forall>i < length geom. unat (firstInstance (dynamicResultsSbo app' ! i)) = (\<Sum>j<i. count j)) \<and>
             length (dynamicOffValuesSbo app') = total) \<and>
          map did_typeID (dynamicInstanceSbo app') = map dod_typeID objs))"
proof (unfold Let_def, intro conjI impI, goal_cases)
  case 1
  with recalculateOffsets_prefix_sum_split
    [of "staticInstanceData (renderData app ! unat renderIndex)" sid_typeID
        "staticAssetBuffer_numTypesID app" "staticResultsGeomToType app" "staticResultsSbo app"]
  show ?case
    by (fastforce simp: prepareStaticBuffersForRendering_def split: sum.splits prod.splits)
next
  case 2
  let ?objs = "dynamicObjectData (renderData app ! unat renderIndex)"
  from 2 have hs: "unat renderIndex < length (renderData app)"
    "\<forall>x \<in> set ?objs. dod_typeID x < dynamicAssetBuffer_numTypesID app"
    "\<forall>g \<in> set (dynamicResultsGeomToType app). g < dynamicAssetBuffer_numTypesID app"
    "length (dynamicResultsGeomToType app) \<le> length (dynamicResultsSbo app)"
    "length ?objs < 2 ^ 32" "length (dynamicResultsGeomToType app) < 2 ^ 32"
    by blast+
  from 2 have bones: "\<forall>x \<in> set ?objs.
          (dod_typeID x = blimpID app \<longrightarrow>
             (\<exists>ms. bonesReset app (blimpID app) = Some ms \<and>
                   (\<forall>b \<in> set [blimpPropL app, blimpPropR app]. unat b < length ms \<and> unat b < MAX_BONES))) \<and>
          (dod_typeID x = carID app \<longrightarrow>
             (\<exists>ms. bonesReset app (carID app) = Some ms \<and>
                   (\<forall>b \<in> set [carWheel0 app, carWheel1 app, carWheel2 app, carWheel3 app].
                      unat b < length ms \<and> unat b < MAX_BONES))) \<and>
          (dod_typeID x = airplaneID app \<longrightarrow>
             (\<exists>ms. bonesReset app (airplaneID app) = Some ms \<and>
                   (\<forall>b \<in> set [airplaneProp app]. unat b < length ms \<and> unat b < MAX_BONES)))"
    by blast
  note mk = makeInstances_ok [OF bones]
  from hs(1) recalculateOffsets_prefix_sum_split [OF hs(2-6)]
  show ?case
    by (fastforce simp: prepareDynamicBuffersForRendering_def mk o_def split: sum.splits prod.splits)
qed

theorem prepareBuffers_firstInstance_prefix_sum_witness:
  "(\<exists>app'. prepareStaticBuffersForRendering 0
       \<lparr> renderData = [\<lparr> staticInstanceData =
                          [\<lparr> sid_typeID = 0, sid_materialVariant = 0 \<rparr>,
                           \<lparr> sid_typeID = 1, sid_materialVariant = 0 \<rparr>,
                           \<lparr> sid_typeID = 1, sid_materialVariant = 0 \<rparr>],
                        dynamicObjectData =
                          [\<lparr> dod_typeID = 0, dod_materialVariant = 0 \<rparr>,
                           \<lparr> dod_typeID = 1, dod_materialVariant = 0 \<rparr>] \<rparr>],
         staticAssetBuffer_numTypesID = 2, dynamicAssetBuffer_numTypesID = 2,
         staticInstanceSbo = [],
         staticResultsSbo = replicate 3 \<lparr> firstInstance = 7 \<rparr>,
         staticResultsGeomToType = [0, 1, 1], staticOffValuesSbo = [],
         dynamicInstanceSbo = [],
         dynamicResultsSbo = replicate 2 \<lparr> firstInstance = 7 \<rparr>,
         dynamicResultsGeomToType = [0, 1], dynamicOffValuesSbo = [],
         blimpID = 1, carID = 2, airplaneID = 3,
         bonesReset = [1 \<mapsto> [10, 11, 12::nat]],
         blimpPropL = 1, blimpPropR = 2,
         carWheel0 = 1, carWheel1 = 2, carWheel2 = 3, carWheel3 = 4,
         airplaneProp = 1 \<rparr> = Inr app' \<and>
      unat (firstInstance (staticResultsSbo app' ! 0)) = 0 \<and>
      unat (firstInstance (staticResultsSbo app' ! 1)) = 1 \<and>
      unat (firstInstance (staticResultsSbo app' ! 2)) = 3 \<and>
      length (staticOffValuesSbo app') = 5)
   \<and>
   (\<exists>app'. prepareDynamicBuffersForRendering 0
       \<lparr> renderData = [\<lparr> staticInstanceData =
                          [\<lparr> sid_typeID = 0, sid_materialVariant = 0 \<rparr>,
                           \<lparr> sid_typeID = 1, sid_materialVariant = 0 \<rparr>,
                           \<lparr> sid_typeID = 1, sid_materialVariant = 0 \<rparr>],
                        dynamicObjectData =
                          [\<lparr> dod_typeID = 0, dod_materialVariant = 0 \<rparr>,
                           \<lparr> dod_typeID = 1, dod_materialVariant = 0 \<rparr>] \<rparr>],
         staticAssetBuffer_numTypesID = 2, dynamicAssetBuffer_numTypesID = 2,
         staticInstanceSbo = [],
         staticResultsSbo = replicate 3 \<lparr> firstInstance = 7 \<rparr>,
         staticResultsGeomToType = [0, 1, 1], staticOffValuesSbo = [],
         dynamicInstanceSbo = [],
         dynamicResultsSbo = replicate 2 \<lparr> firstInstance = 7 \<rparr>,
         dynamicResultsGeomToType = [0, 1], dynamicOffValuesSbo = [],
         blimpID = 1, carID = 2, airplaneID = 3,
         bonesReset = [1 \<mapsto> [10, 11, 12::nat]],
         blimpPropL = 1, blimpPropR = 2,
         carWheel0 = 1, carWheel1 = 2, carWheel2 = 3, carWheel3 = 4,
         airplaneProp = 1 \<rparr> = Inr app' \<and>
      unat (firstInstance (dynamicResultsSbo app' ! 0)) = 0 \<and>
      unat (firstInstance (dynamicResultsSbo app' ! 1)) = 1 \<and>
      length (dynamicOffValuesSbo app') = 2 \<and>
      map did_typeID (dynamicInstanceSbo app') = [0, 1])"
  using prepareBuffers_firstInstance_prefix_sum
    [where renderIndex = 0 and app = "\<lparr> renderData = [\<lparr> staticInstanceData =
                          [\<lparr> sid_typeID = 0, sid_materialVariant = 0 \<rparr>,
                           \<lparr> sid_typeID = 1, sid_materialVariant = 0 \<rparr>,
                           \<lparr> sid_typeID = 1, sid_materialVariant = 0 \<rparr>],
                        dynamicObjectData =
                          [\<lparr> dod_typeID = 0, dod_materialVariant = 0 \<rparr>,
                           \<lparr> dod_typeID = 1, dod_materialVariant = 0 \<rparr>] \<rparr>],
         staticAssetBuffer_numTypesID = 2, dynamicAssetBuffer_numTypesID = 2,
         staticInstanceSbo = [],
         staticResultsSbo = replicate 3 \<lparr> firstInstance = 7 \<rparr>,
         staticResultsGeomToType = [0, 1, 1], staticOffValuesSbo = [],
         dynamicInstanceSbo = [],
         dynamicResultsSbo = replicate 2 \<lparr> firstInstance = 7 \<rparr>,
         dynamicResultsGeomToType = [0, 1], dynamicOffValuesSbo = [],
         blimpID = 1, carID = 2, airplaneID = 3,
         bonesReset = [1 \<mapsto> [10, 11, 12::nat]],
         blimpPropL = 1, blimpPropR = 2,
         carWheel0 = 1, carWheel1 = 2, carWheel2 = 3, carWheel3 = 4,
         airplaneProp = 1 \<rparr>"]
  apply (simp add: Let_def lessThan_Suc less_Suc_eq all_conj_distrib MAX_BONES_def)
  apply (auto simp: numeral_2_eq_2)
  done

section \<open>Resizing the in-flight count\<close>

text \<open>
  \<open>PerSurfaceData::resize\<close> calls \<open>std::vector::resize\<close> on both vectors, which leaves
  the slots it keeps as they are: a set with one in-flight slot that is valid, resized to
  two, still has slot 0 valid. The value \<open>false\<close> passed to \<open>valid.resize\<close> fills the
  new slots only.
\<close>

theorem resize_keeps_valid_flags_counterexample:
  "psd_valid (resize \<lparr> psd_descriptorSet = [5], psd_valid = [True], psd_device = 7 \<rparr> 2) = [True, False]"
  by (simp add: resize_def vector_resize_def)

text \<open>
  C1, as the code has it. Resizing the in-flight count of a per-surface entry to \<open>M\<close>
  gives both vectors exactly \<open>M\<close> entries; every slot below the old size keeps its
  validity flag and its handle, every new slot is invalid and holds the null handle; and
  in a set that holds the resized entry for a surface, \<open>validate\<close> for that surface and
  any in-flight index \<open>k < M\<close> of a render context (whose index is below its own number
  of in-flight slots) succeeds, after which \<open>getHandle\<close> returns a handle and the slot is
  marked valid. The same holds for any set whose in-flight count has been resized to
  \<open>M\<close>, whatever it held before, and a context with \<open>M\<close> slots.
\<close>

theorem resize_then_validate:
  "length (psd_descriptorSet (resize psd M)) = unat M \<and>
   length (psd_valid (resize psd M)) = unat M \<and>
   (\<forall>k < unat M.
      psd_valid (resize psd M) ! k = (if k < length (psd_valid psd) then psd_valid psd ! k else False) \<and>
      psd_descriptorSet (resize psd M) ! k =
        (if k < length (psd_descriptorSet psd) then psd_descriptorSet psd ! k else VK_NULL_HANDLE)) \<and>
   (perSurfaceData ds (vkSurface rc) = Some (resize psd M) \<and> unat (activeIndex rc) < unat M \<and>
    unat (activeIndex rc) < unat (imageCount rc) \<longrightarrow>
      (\<exists>ds' vk' h. DescriptorSet_validate rc (ds, vk) = Inr (ds', vk') \<and>
                   DescriptorSet_getHandle ds' rc = Inr h \<and>
                   (vkSurface rc, unat (activeIndex rc)) \<in> validSlots ds')) \<and>
   (unat (activeIndex rc) < unat M \<and> imageCount rc = M \<longrightarrow>
      (\<exists>ds' vk' h. DescriptorSet_validate rc (resizeInFlightCount M ds, vk) = Inr (ds', vk') \<and>
                   DescriptorSet_getHandle ds' rc = Inr h \<and>
                   (vkSurface rc, unat (activeIndex rc)) \<in> validSlots ds'))"
proof (intro conjI allI impI)
  show "length (psd_descriptorSet (resize psd M)) = unat M"
    and "length (psd_valid (resize psd M)) = unat M"
    by (rule resize_lengths)+
next
  fix k assume k: "k < unat M"
  then show "psd_valid (resize psd M) ! k = (if k < length (psd_valid psd) then psd_valid psd ! k else False)"
    by (simp add: resize_def vector_resize_old vector_resize_new)
  from k show "psd_descriptorSet (resize psd M) ! k =
        (if k < length (psd_descriptorSet psd) then psd_descriptorSet psd ! k else VK_NULL_HANDLE)"
    by (simp add: resize_def vector_resize_old vector_resize_new)
next
  assume h: "perSurfaceData ds (vkSurface rc) = Some (resize psd M) \<and> unat (activeIndex rc) < unat M \<and>
    unat (activeIndex rc) < unat (imageCount rc)"
  let ?ds = "if imageCount rc = activeCount ds then ds else resizeInFlightCount (imageCount rc) ds"
  let ?e = "if imageCount rc = activeCount ds then resize psd M else resize (resize psd M) (imageCount rc)"
  have e: "perSurfaceData ?ds (vkSurface rc) = Some ?e"
    using h by (simp add: resizeInFlightCount_def)
  have l: "unat (activeIndex rc) < length (psd_valid ?e)" "unat (activeIndex rc) < length (psd_descriptorSet ?e)"
    using h by (simp_all add: resize_lengths)
  have "DescriptorSet_validate rc (ds, vk) = DescriptorSet_validateSlot rc (?ds, vk)"
    by (simp add: DescriptorSet_validate_def)
  with DescriptorSet_validateSlot_in_range [OF e l, of vk]
  show "\<exists>ds' vk' h. DescriptorSet_validate rc (ds, vk) = Inr (ds', vk') \<and>
                   DescriptorSet_getHandle ds' rc = Inr h \<and>
                   (vkSurface rc, unat (activeIndex rc)) \<in> validSlots ds'"
    by simp
next
  assume h: "unat (activeIndex rc) < unat M \<and> imageCount rc = M"
  have z: "slotsSized (fst (resizeInFlightCount M ds, vk))"
    by (simp add: resizeInFlightCount_sized)
  from h have wf: "unat (activeIndex rc) < unat (imageCount rc)" by simp
  from DescriptorSet_validate_ok [OF z wf]
  obtain s' where r: "DescriptorSet_validate rc (resizeInFlightCount M ds, vk) = Inr s'"
    and z': "slotsSized (fst s')" and m: "(vkSurface rc, unat (activeIndex rc)) \<in> validSlots (fst s')"
    by blast
  from DescriptorSet_getHandle_ok [OF m z'] obtain hd where "DescriptorSet_getHandle (fst s') rc = Inr hd" ..
  with r m have "DescriptorSet_validate rc (resizeInFlightCount M ds, vk) = Inr (fst s', snd s') \<and>
      DescriptorSet_getHandle (fst s') rc = Inr hd \<and>
      (vkSurface rc, unat (activeIndex rc)) \<in> validSlots (fst s')"
    by simp
  then show "\<exists>ds' vk' h. DescriptorSet_validate rc (resizeInFlightCount M ds, vk) = Inr (ds', vk') \<and>
                   DescriptorSet_getHandle ds' rc = Inr h \<and>
                   (vkSurface rc, unat (activeIndex rc)) \<in> validSlots ds'"
    by blast
qed

theorem resize_then_validate_witness:
  "psd_valid (resize \<lparr> psd_descriptorSet = [5], psd_valid = [True], psd_device = 7 \<rparr> 2) ! 0 = True \<and>
   psd_valid (resize \<lparr> psd_descriptorSet = [5], psd_valid = [True], psd_device = 7 \<rparr> 2) ! 1 = False \<and>
   psd_descriptorSet (resize \<lparr> psd_descriptorSet = [5], psd_valid = [True], psd_device = 7 \<rparr> 2) ! 1 = VK_NULL_HANDLE \<and>
   (\<exists>ds' vk' h. DescriptorSet_validate \<lparr> vkDevice = 7, vkSurface = 3, activeIndex = 1, imageCount = 2 \<rparr>
        (\<lparr> layout = 0, pool = 0,
            perSurfaceData = [3 \<mapsto> resize \<lparr> psd_descriptorSet = [5], psd_valid = [True], psd_device = 7 \<rparr> 2],
            descriptors = Map.empty, nodeOwners = [], activeCount = 2 \<rparr>, []) = Inr (ds', vk') \<and>
      DescriptorSet_getHandle ds' \<lparr> vkDevice = 7, vkSurface = 3, activeIndex = 1, imageCount = 2 \<rparr> = Inr h) \<and>
   (\<exists>ds' vk' h. DescriptorSet_validate \<lparr> vkDevice = 7, vkSurface = 3, activeIndex = 1, imageCount = 2 \<rparr>
        (resizeInFlightCount 2
           \<lparr> layout = 0, pool = 0,
            perSurfaceData = [3 \<mapsto> \<lparr> psd_descriptorSet = [5], psd_valid = [True], psd_device = 7 \<rparr>],
            descriptors = Map.empty, nodeOwners = [], activeCount = 1 \<rparr>, []) = Inr (ds', vk') \<and>
      DescriptorSet_getHandle ds' \<lparr> vkDevice = 7, vkSurface = 3, activeIndex = 1, imageCount = 2 \<rparr> = Inr h)"
proof -
  note T = resize_then_validate
    [where psd = "\<lparr> psd_descriptorSet = [5], psd_valid = [True], psd_device = 7 \<rparr>" and M = 2
       and rc = "\<lparr> vkDevice = 7, vkSurface = 3, activeIndex = 1, imageCount = 2 \<rparr>" and vk = "[]"]
  note A = T [where ds = "\<lparr> layout = 0, pool = 0,
            perSurfaceData = [3 \<mapsto> resize \<lparr> psd_descriptorSet = [5], psd_valid = [True], psd_device = 7 \<rparr> 2],
            descriptors = Map.empty, nodeOwners = [], activeCount = 2 \<rparr>"]
  note B = T [where ds = "\<lparr> layout = 0, pool = 0,
            perSurfaceData = [3 \<mapsto> \<lparr> psd_descriptorSet = [5], psd_valid = [True], psd_device = 7 \<rparr>],
            descriptors = Map.empty, nodeOwners = [], activeCount = 1 \<rparr>"]
  have k0: "(0::nat) < unat (2::u32)" and k1: "(1::nat) < unat (2::u32)"
    by simp_all
  note slots = A [THEN conjunct2, THEN conjunct2, THEN conjunct1, rule_format]
  have pre: "perSurfaceData \<lparr> layout = 0, pool = 0,
            perSurfaceData = [3 \<mapsto> resize \<lparr> psd_descriptorSet = [5], psd_valid = [True], psd_device = 7 \<rparr> 2],
            descriptors = Map.empty, nodeOwners = [], activeCount = 2 \<rparr>
          (vkSurface \<lparr> vkDevice = 7, vkSurface = 3, activeIndex = 1, imageCount = 2 \<rparr>)
        = Some (resize \<lparr> psd_descriptorSet = [5], psd_valid = [True], psd_device = 7 \<rparr> 2) \<and>
      unat (activeIndex \<lparr> vkDevice = 7, vkSurface = 3, activeIndex = 1, imageCount = 2 \<rparr>) < unat (2::u32) \<and>
      unat (activeIndex \<lparr> vkDevice = 7, vkSurface = 3, activeIndex = 1, imageCount = 2 \<rparr>) < unat (imageCount \<lparr> vkDevice = 7, vkSurface = 3, activeIndex = 1, imageCount = 2 \<rparr>)"
    by simp
  from A [THEN conjunct2, THEN conjunct2, THEN conjunct2, THEN conjunct1, rule_format, OF pre]
  have v: "\<exists>ds' vk' h. DescriptorSet_validate \<lparr> vkDevice = 7, vkSurface = 3, activeIndex = 1, imageCount = 2 \<rparr>
        (\<lparr> layout = 0, pool = 0,
            perSurfaceData = [3 \<mapsto> resize \<lparr> psd_descriptorSet = [5], psd_valid = [True], psd_device = 7 \<rparr> 2],
            descriptors = Map.empty, nodeOwners = [], activeCount = 2 \<rparr>, []) = Inr (ds', vk') \<and>
      DescriptorSet_getHandle ds' \<lparr> vkDevice = 7, vkSurface = 3, activeIndex = 1, imageCount = 2 \<rparr> = Inr h"
    by blast
  have pre2: "unat (activeIndex \<lparr> vkDevice = 7, vkSurface = 3, activeIndex = 1, imageCount = 2 \<rparr>) < unat (2::u32) \<and> imageCount \<lparr> vkDevice = 7, vkSurface = 3, activeIndex = 1, imageCount = 2 \<rparr> = 2"
    by simp
  from B [THEN conjunct2, THEN conjunct2, THEN conjunct2, THEN conjunct2, rule_format, OF pre2]
  have w: "\<exists>ds' vk' h. DescriptorSet_validate \<lparr> vkDevice = 7, vkSurface = 3, activeIndex = 1, imageCount = 2 \<rparr>
        (resizeInFlightCount 2
           \<lparr> layout = 0, pool = 0,
            perSurfaceData = [3 \<mapsto> \<lparr> psd_descriptorSet = [5], psd_valid = [True], psd_device = 7 \<rparr>],
            descriptors = Map.empty, nodeOwners = [], activeCount = 1 \<rparr>, []) = Inr (ds', vk') \<and>
      DescriptorSet_getHandle ds' \<lparr> vkDevice = 7, vkSurface = 3, activeIndex = 1, imageCount = 2 \<rparr> = Inr h"
    by blast
  from slots [OF k0] slots [OF k1] v w show ?thesis by simp
qed

section \<open>Invalidation fan-out\<close>

text \<open>
  \<open>Descriptor::invalidate()\<close> and \<open>DescriptorSet::invalidate()\<close> take no argument, and
  the set holds no current in-flight index: invalidation cannot single one index out. A
  resource bound in two sets, each with the two in-flight slots of surface 1 valid: after
  the resource is invalidated both flags of the first set are cleared, so whichever index
  is the current one, the flag of the other index has changed too.
\<close>

theorem Resource_invalidate_other_index_counterexample:
  "psd_valid (the (perSurfaceData (the (descriptorSets
     (Resource_invalidate 5
        \<lparr> descriptorSets =
            [10 \<mapsto> \<lparr> layout = 0, pool = 0,
                      perSurfaceData = [1 \<mapsto> \<lparr> psd_descriptorSet = [1, 2], psd_valid = [True, True], psd_device = 1 \<rparr>],
                      descriptors = [0 \<mapsto> \<lparr> owner = 10, resources = [5], d_descriptorType = VK_DESCRIPTOR_TYPE_STORAGE_BUFFER \<rparr>],
                      nodeOwners = [], activeCount = 2 \<rparr>,
             20 \<mapsto> \<lparr> layout = 0, pool = 0,
                      perSurfaceData = [1 \<mapsto> \<lparr> psd_descriptorSet = [3, 4], psd_valid = [True, True], psd_device = 1 \<rparr>],
                      descriptors = [0 \<mapsto> \<lparr> owner = 20, resources = [5], d_descriptorType = VK_DESCRIPTOR_TYPE_STORAGE_BUFFER \<rparr>],
                      nodeOwners = [], activeCount = 2 \<rparr>],
          observers = (\<lambda>r. [])(5 := [\<lparr> owner = 10, resources = [5], d_descriptorType = VK_DESCRIPTOR_TYPE_STORAGE_BUFFER \<rparr>,
                                    \<lparr> owner = 20, resources = [5], d_descriptorType = VK_DESCRIPTOR_TYPE_STORAGE_BUFFER \<rparr>]),
          invalidatedNodes = [] \<rparr>) 10)) 1))
   = [False, False]"
  by (simp add: Resource_invalidate_def Descriptor_invalidate_def DescriptorSet_invalidate_def)

text \<open>
  C2, as the design has it. When a backing resource that is registered with a descriptor
  of set \<open>A\<close> and with a descriptor of set \<open>B\<close> is invalidated, both sets are
  invalidated: no surface and no in-flight index of either is left valid, each
  per-surface entry keeps its handles and the length of its flag vector. A set none of
  whose descriptors is registered with the resource is left as it was (the fan-out
  reaches the observers only). Binding a resource to a slot of a set with
  \<open>setDescriptor\<close> registers a descriptor owned by that set with the resource.
\<close>

theorem Resource_invalidate_fan_out:
  "((\<exists>d \<in> set (observers w r). owner d = a) \<and> (\<exists>d \<in> set (observers w r). owner d = b) \<and>
    descriptorSets w a = Some A \<and> descriptorSets w b = Some B \<longrightarrow>
      descriptorSets (Resource_invalidate r w) a = Some (DescriptorSet_invalidate A) \<and>
      descriptorSets (Resource_invalidate r w) b = Some (DescriptorSet_invalidate B) \<and>
      validSlots (DescriptorSet_invalidate A) = {} \<and>
      validSlots (DescriptorSet_invalidate B) = {}) \<and>
   (perSurfaceData X sf = Some psd \<longrightarrow>
      perSurfaceData (DescriptorSet_invalidate X) sf =
        Some (psd\<lparr> psd_valid := replicate (length (psd_valid psd)) False \<rparr>)) \<and>
   ((\<forall>d \<in> set (observers w r). owner d \<noteq> c) \<longrightarrow>
      descriptorSets (Resource_invalidate r w) c = descriptorSets w c) \<and>
   (descriptorSets w a = Some A \<and> r \<in> set rs \<longrightarrow>
      (\<exists>d \<in> set (observers (setDescriptor a slot rs kind w) r). owner d = a))"
proof (intro conjI impI)
  assume h: "(\<exists>d \<in> set (observers w r). owner d = a) \<and> (\<exists>d \<in> set (observers w r). owner d = b) \<and>
    descriptorSets w a = Some A \<and> descriptorSets w b = Some B"
  then have "a \<in> owner ` set (observers w r)" "b \<in> owner ` set (observers w r)" by auto
  with h show "descriptorSets (Resource_invalidate r w) a = Some (DescriptorSet_invalidate A)"
    and "descriptorSets (Resource_invalidate r w) b = Some (DescriptorSet_invalidate B)"
    by (simp_all add: Resource_invalidate_def fold_Descriptor_invalidate_sets)
  show "validSlots (DescriptorSet_invalidate A) = {}" "validSlots (DescriptorSet_invalidate B) = {}"
    by (rule validSlots_invalidate)+
next
  assume "perSurfaceData X sf = Some psd"
  then show "perSurfaceData (DescriptorSet_invalidate X) sf =
        Some (psd\<lparr> psd_valid := replicate (length (psd_valid psd)) False \<rparr>)"
    by (rule DescriptorSet_invalidate_entry)
next
  assume "\<forall>d \<in> set (observers w r). owner d \<noteq> c"
  then have "c \<notin> owner ` set (observers w r)" by auto
  then show "descriptorSets (Resource_invalidate r w) c = descriptorSets w c"
    by (simp add: Resource_invalidate_def fold_Descriptor_invalidate_sets)
next
  assume "descriptorSets w a = Some A \<and> r \<in> set rs"
  then show "\<exists>d \<in> set (observers (setDescriptor a slot rs kind w) r). owner d = a"
    using setDescriptor_registers by blast
qed

theorem Resource_invalidate_fan_out_witness:
  "descriptorSets
     (Resource_invalidate 5
        \<lparr> descriptorSets =
            [10 \<mapsto> (DescriptorSet_ctor 0 0)\<lparr> perSurfaceData := [1 \<mapsto> \<lparr> psd_descriptorSet = [1], psd_valid = [True], psd_device = 1 \<rparr>] \<rparr>,
             20 \<mapsto> (DescriptorSet_ctor 0 0)\<lparr> perSurfaceData := [1 \<mapsto> \<lparr> psd_descriptorSet = [2], psd_valid = [True], psd_device = 1 \<rparr>] \<rparr>,
             30 \<mapsto> (DescriptorSet_ctor 0 0)\<lparr> perSurfaceData := [1 \<mapsto> \<lparr> psd_descriptorSet = [3], psd_valid = [True], psd_device = 1 \<rparr>] \<rparr>],
          observers = (\<lambda>r. [])(5 := [\<lparr> owner = 10, resources = [5], d_descriptorType = VK_DESCRIPTOR_TYPE_UNIFORM_BUFFER \<rparr>,
                                    \<lparr> owner = 20, resources = [5], d_descriptorType = VK_DESCRIPTOR_TYPE_UNIFORM_BUFFER \<rparr>]),
          invalidatedNodes = [] \<rparr>) 10
   = Some (DescriptorSet_invalidate
       ((DescriptorSet_ctor 0 0)\<lparr> perSurfaceData := [1 \<mapsto> \<lparr> psd_descriptorSet = [1], psd_valid = [True], psd_device = 1 \<rparr>] \<rparr>)) \<and>
   descriptorSets
     (Resource_invalidate 5
        \<lparr> descriptorSets =
            [10 \<mapsto> (DescriptorSet_ctor 0 0)\<lparr> perSurfaceData := [1 \<mapsto> \<lparr> psd_descriptorSet = [1], psd_valid = [True], psd_device = 1 \<rparr>] \<rparr>,
             20 \<mapsto> (DescriptorSet_ctor 0 0)\<lparr> perSurfaceData := [1 \<mapsto> \<lparr> psd_descriptorSet = [2], psd_valid = [True], psd_device = 1 \<rparr>] \<rparr>,
             30 \<mapsto> (DescriptorSet_ctor 0 0)\<lparr> perSurfaceData := [1 \<mapsto> \<lparr> psd_descriptorSet = [3], psd_valid = [True], psd_device = 1 \<rparr>] \<rparr>],
          observers = (\<lambda>r. [])(5 := [\<lparr> owner = 10, resources = [5], d_descriptorType = VK_DESCRIPTOR_TYPE_UNIFORM_BUFFER \<rparr>,
                                    \<lparr> owner = 20, resources = [5], d_descriptorType = VK_DESCRIPTOR_TYPE_UNIFORM_BUFFER \<rparr>]),
          invalidatedNodes = [] \<rparr>) 30
   = Some ((DescriptorSet_ctor 0 0)\<lparr> perSurfaceData := [1 \<mapsto> \<lparr> psd_descriptorSet = [3], psd_valid = [True], psd_device = 1 \<rparr>] \<rparr>)"
  using Resource_invalidate_fan_out
    [where r = 5 and a = 10 and b = 20 and c = 30 and rs = "[5]" and X = "DescriptorSet_ctor 0 0" and sf = 1
       and A = "(DescriptorSet_ctor 0 0)\<lparr> perSurfaceData := [1 \<mapsto> \<lparr> psd_descriptorSet = [1], psd_valid = [True], psd_device = 1 \<rparr>] \<rparr>"
       and B = "(DescriptorSet_ctor 0 0)\<lparr> perSurfaceData := [1 \<mapsto> \<lparr> psd_descriptorSet = [2], psd_valid = [True], psd_device = 1 \<rparr>] \<rparr>"
       and w = "\<lparr> descriptorSets =
            [10 \<mapsto> (DescriptorSet_ctor 0 0)\<lparr> perSurfaceData := [1 \<mapsto> \<lparr> psd_descriptorSet = [1], psd_valid = [True], psd_device = 1 \<rparr>] \<rparr>,
             20 \<mapsto> (DescriptorSet_ctor 0 0)\<lparr> perSurfaceData := [1 \<mapsto> \<lparr> psd_descriptorSet = [2], psd_valid = [True], psd_device = 1 \<rparr>] \<rparr>,
             30 \<mapsto> (DescriptorSet_ctor 0 0)\<lparr> perSurfaceData := [1 \<mapsto> \<lparr> psd_descriptorSet = [3], psd_valid = [True], psd_device = 1 \<rparr>] \<rparr>],
          observers = (\<lambda>r. [])(5 := [\<lparr> owner = 10, resources = [5], d_descriptorType = VK_DESCRIPTOR_TYPE_UNIFORM_BUFFER \<rparr>,
                                    \<lparr> owner = 20, resources = [5], d_descriptorType = VK_DESCRIPTOR_TYPE_UNIFORM_BUFFER \<rparr>]),
          invalidatedNodes = [] \<rparr>"]
  by simp

section \<open>Handles before validation\<close>

text \<open>
  C3. For a descriptor set layout, a descriptor pool and a pipeline that have been
  constructed and then validated for any devices other than \<open>d\<close> (none at all included),
  \<open>getHandle(d)\<close> fails with the "not validated" condition. For a descriptor set that
  has been constructed and then validated by any render contexts (of any number of
  in-flight slots, each with its index below its number of slots) whose pair of surface
  and in-flight index is not that of the context \<open>rc0\<close>, the run of \<open>validate\<close> calls
  succeeds and \<open>getHandle(rc0)\<close> then fails in the same way. No handle is returned in
  either case.
\<close>

theorem getHandle_before_validate_fails:
  "((\<forall>rc \<in> set rcs. vkDevice rc \<noteq> d) \<longrightarrow>
      DescriptorSetLayout_getHandle
        (fst (fold DescriptorSetLayout_validate rcs (DescriptorSetLayout_ctor bs, vk))) d = Inl NotValidated) \<and>
   ((\<forall>rc \<in> set rcs. vkDevice rc \<noteq> d) \<longrightarrow>
      DescriptorPool_getHandle
        (fst (fold DescriptorPool_validate rcs (DescriptorPool_ctor n bs, vk))) d = Inl NotValidated) \<and>
   ((\<forall>rc \<in> set rcs. vkDevice rc \<noteq> d) \<longrightarrow>
      Pipeline_getHandle
        (fst (fold Pipeline_validate rcs (Pipeline_ctor cache lay, vk))) d = Inl NotValidated) \<and>
   ((\<forall>rc \<in> set rcs. unat (activeIndex rc) < unat (imageCount rc) \<and>
                      (vkSurface rc \<noteq> vkSurface rc0 \<or> activeIndex rc \<noteq> activeIndex rc0)) \<longrightarrow>
      (\<exists>s'. DescriptorSet_validate_all rcs (DescriptorSet_ctor lay pl, vk) = Inr s' \<and>
            DescriptorSet_getHandle (fst s') rc0 = Inl NotValidated))"
proof (intro conjI impI)
  assume h: "\<forall>rc \<in> set rcs. vkDevice rc \<noteq> d"
  show "DescriptorSetLayout_getHandle
        (fst (fold DescriptorSetLayout_validate rcs (DescriptorSetLayout_ctor bs, vk))) d = Inl NotValidated"
    using cache_fold_absent_dsl [OF h, of "(DescriptorSetLayout_ctor bs, vk)"]
    by (simp add: DescriptorSetLayout_getHandle_def cache_getHandle_def DescriptorSetLayout_ctor_def)
  show "DescriptorPool_getHandle
        (fst (fold DescriptorPool_validate rcs (DescriptorPool_ctor n bs, vk))) d = Inl NotValidated"
    using cache_fold_absent_dp [OF h, of "(DescriptorPool_ctor n bs, vk)"]
    by (simp add: DescriptorPool_getHandle_def cache_getHandle_def DescriptorPool_ctor_def)
  show "Pipeline_getHandle
        (fst (fold Pipeline_validate rcs (Pipeline_ctor cache lay, vk))) d = Inl NotValidated"
    using Pipeline_fold_absent [OF h, of "(Pipeline_ctor cache lay, vk)"]
    by (simp add: Pipeline_getHandle_def Pipeline_ctor_def)
next
  assume h: "\<forall>rc \<in> set rcs. unat (activeIndex rc) < unat (imageCount rc) \<and>
                      (vkSurface rc \<noteq> vkSurface rc0 \<or> activeIndex rc \<noteq> activeIndex rc0)"
  have z: "slotsSized (fst (DescriptorSet_ctor lay pl, vk))"
    by (simp add: slotsSized_ctor)
  from h have wf: "\<forall>rc \<in> set rcs. unat (activeIndex rc) < unat (imageCount rc)" by simp
  from DescriptorSet_validate_all_ok [OF z wf]
  obtain s' where r: "DescriptorSet_validate_all rcs (DescriptorSet_ctor lay pl, vk) = Inr s'"
    and v: "validSlots (fst s') \<subseteq> (\<lambda>rc. (vkSurface rc, unat (activeIndex rc))) ` set rcs"
    by (auto simp: validSlots_ctor)
  have "(vkSurface rc0, unat (activeIndex rc0)) \<notin> (\<lambda>rc. (vkSurface rc, unat (activeIndex rc))) ` set rcs"
    using h by (auto simp: word_unat_eq_iff)
  with v have "(vkSurface rc0, unat (activeIndex rc0)) \<notin> validSlots (fst s')" by auto
  then have "DescriptorSet_getHandle (fst s') rc0 = Inl NotValidated"
    by (rule DescriptorSet_getHandle_fails)
  with r show "\<exists>s'. DescriptorSet_validate_all rcs (DescriptorSet_ctor lay pl, vk) = Inr s' \<and>
            DescriptorSet_getHandle (fst s') rc0 = Inl NotValidated"
    by blast
qed

theorem getHandle_before_validate_fails_witness:
  "DescriptorSetLayout_getHandle
     (fst (fold DescriptorSetLayout_validate [\<lparr> vkDevice = 1, vkSurface = 1, activeIndex = 0, imageCount = 2 \<rparr>, \<lparr> vkDevice = 1, vkSurface = 2, activeIndex = 0, imageCount = 2 \<rparr>]
             (DescriptorSetLayout_ctor [], []))) 2 = Inl NotValidated \<and>
   DescriptorPool_getHandle
     (fst (fold DescriptorPool_validate [\<lparr> vkDevice = 1, vkSurface = 1, activeIndex = 0, imageCount = 2 \<rparr>, \<lparr> vkDevice = 1, vkSurface = 2, activeIndex = 0, imageCount = 2 \<rparr>]
             (DescriptorPool_ctor 3 [], []))) 2 = Inl NotValidated \<and>
   Pipeline_getHandle
     (fst (fold Pipeline_validate [\<lparr> vkDevice = 1, vkSurface = 1, activeIndex = 0, imageCount = 2 \<rparr>, \<lparr> vkDevice = 1, vkSurface = 2, activeIndex = 0, imageCount = 2 \<rparr>]
             (Pipeline_ctor 0 0, []))) 2 = Inl NotValidated \<and>
   (\<exists>s'. DescriptorSet_validate_all [\<lparr> vkDevice = 1, vkSurface = 1, activeIndex = 0, imageCount = 2 \<rparr>, \<lparr> vkDevice = 1, vkSurface = 2, activeIndex = 0, imageCount = 2 \<rparr>] (DescriptorSet_ctor 0 0, []) = Inr s' \<and>
         DescriptorSet_getHandle (fst s') \<lparr> vkDevice = 1, vkSurface = 1, activeIndex = 1, imageCount = 2 \<rparr> = Inl NotValidated)"
proof -
  have h: "(\<forall>rc \<in> set [\<lparr> vkDevice = 1, vkSurface = 1, activeIndex = 0, imageCount = 2 \<rparr>, \<lparr> vkDevice = 1, vkSurface = 2, activeIndex = 0, imageCount = 2 \<rparr>]. vkDevice rc \<noteq> 2) = True"
    by simp
  have h2: "(\<forall>rc \<in> set [\<lparr> vkDevice = 1, vkSurface = 1, activeIndex = 0, imageCount = 2 \<rparr>, \<lparr> vkDevice = 1, vkSurface = 2, activeIndex = 0, imageCount = 2 \<rparr>].
      unat (activeIndex rc) < unat (imageCount rc) \<and>
      (vkSurface rc \<noteq> vkSurface \<lparr> vkDevice = 1, vkSurface = 1, activeIndex = 1, imageCount = 2 \<rparr> \<or>
       activeIndex rc \<noteq> activeIndex \<lparr> vkDevice = 1, vkSurface = 1, activeIndex = 1, imageCount = 2 \<rparr>)) = True"
    by simp
  from getHandle_before_validate_fails
      [where rcs = "[\<lparr> vkDevice = 1, vkSurface = 1, activeIndex = 0, imageCount = 2 \<rparr>, \<lparr> vkDevice = 1, vkSurface = 2, activeIndex = 0, imageCount = 2 \<rparr>]" and d = 2
         and bs = "[]" and vk = "[]" and n = 3 and cache = 0 and lay = 0 and pl = 0
         and ?rc0.0 = "\<lparr> vkDevice = 1, vkSurface = 1, activeIndex = 1, imageCount = 2 \<rparr>"]
  show ?thesis by (simp only: h h2 simp_thms)
qed

section \<open>Validation creates the native object once\<close>



section \<open>Invalidating a pipeline\<close>

text \<open>
  C6. After \<open>internalInvalidate()\<close> every entry of the pipeline's per-device cache has
  \<open>valid = false\<close>. The devices in the cache and the handle of each entry are the same
  as before, and so are the pipeline cache, the pipeline layout and every field of a
  derived class: nothing else is modified. For every device in the cache the next
  \<open>validate\<close> makes one more native pipeline creation call, and \<open>getHandle\<close> then
  returns a handle.
\<close>

theorem internalInvalidate_marks_every_device:
  "(\<forall>d pdd. perDeviceData (internalInvalidate p) d = Some pdd \<longrightarrow> \<not> valid pdd) \<and>
   dom (perDeviceData (internalInvalidate p)) = dom (perDeviceData p) \<and>
   (\<forall>d pdd. perDeviceData p d = Some pdd \<longrightarrow>
      (\<exists>pdd'. perDeviceData (internalInvalidate p) d = Some pdd' \<and> pipeline pdd' = pipeline pdd)) \<and>
   pipelineCache (internalInvalidate p) = pipelineCache p \<and>
   pipelineLayout (internalInvalidate p) = pipelineLayout p \<and>
   Pipeline.more (internalInvalidate p) = Pipeline.more p \<and>
   (\<forall>rc. vkDevice rc \<in> dom (perDeviceData p) \<longrightarrow>
      creations NativePipeline (vkDevice rc) (snd (Pipeline_validate rc (internalInvalidate p, vk))) =
        Suc (creations NativePipeline (vkDevice rc) vk) \<and>
      (\<exists>h. Pipeline_getHandle (fst (Pipeline_validate rc (internalInvalidate p, vk))) (vkDevice rc) = Inr h))"
proof (intro conjI allI impI)
  fix d pdd assume "perDeviceData (internalInvalidate p) d = Some pdd"
  then show "\<not> valid pdd" by (auto simp: internalInvalidate_def)
next
  show "dom (perDeviceData (internalInvalidate p)) = dom (perDeviceData p)"
    by (auto simp: internalInvalidate_def)
next
  fix d pdd assume "perDeviceData p d = Some pdd"
  then show "\<exists>pdd'. perDeviceData (internalInvalidate p) d = Some pdd' \<and> pipeline pdd' = pipeline pdd"
    by (simp add: internalInvalidate_def)
next
  show "pipelineCache (internalInvalidate p) = pipelineCache p"
    and "pipelineLayout (internalInvalidate p) = pipelineLayout p"
    and "Pipeline.more (internalInvalidate p) = Pipeline.more p"
    by (simp_all add: internalInvalidate_def)
next
  fix rc :: RenderContext
  have nv: "vkDevice rc \<notin> validDevices (fst (internalInvalidate p, vk))"
    by (simp add: validDevices_internalInvalidate)
  show "creations NativePipeline (vkDevice rc) (snd (Pipeline_validate rc (internalInvalidate p, vk))) =
        Suc (creations NativePipeline (vkDevice rc) vk)"
    unfolding Pipeline_validate_stale [OF nv] by (simp add: creations_append creations_single)
  show "\<exists>h. Pipeline_getHandle (fst (Pipeline_validate rc (internalInvalidate p, vk))) (vkDevice rc) = Inr h"
    unfolding Pipeline_validate_stale [OF nv] by (simp add: Pipeline_getHandle_def)
qed

theorem internalInvalidate_marks_every_device_witness:
  "perDeviceData (internalInvalidate
       \<lparr> pipelineCache = 0, pipelineLayout = 0, perDeviceData = [1 \<mapsto> \<lparr> pipeline = 4, valid = True \<rparr>] \<rparr>) 1
     = Some \<lparr> pipeline = 4, valid = False \<rparr> \<and>
   creations NativePipeline 1
     (snd (Pipeline_validate \<lparr> vkDevice = 1, vkSurface = 1, activeIndex = 0, imageCount = 1 \<rparr>
        (internalInvalidate
           \<lparr> pipelineCache = 0, pipelineLayout = 0, perDeviceData = [1 \<mapsto> \<lparr> pipeline = 4, valid = True \<rparr>] \<rparr>,
         [(NativePipeline, 1, 4)]))) = 2"
proof -
  note T = internalInvalidate_marks_every_device
    [where p = "\<lparr> pipelineCache = 0, pipelineLayout = 0, perDeviceData = [1 \<mapsto> \<lparr> pipeline = 4, valid = True \<rparr>] \<rparr>"
       and vk = "[(NativePipeline, 1, 4)]"]
  have d: "vkDevice \<lparr> vkDevice = 1, vkSurface = 1, activeIndex = 0, imageCount = 1 \<rparr>
           \<in> dom (perDeviceData \<lparr> pipelineCache = 0, pipelineLayout = 0, perDeviceData = [1 \<mapsto> \<lparr> pipeline = 4, valid = True \<rparr>] \<rparr>)"
    by simp
  have e: "perDeviceData \<lparr> pipelineCache = 0, pipelineLayout = 0, perDeviceData = [1 \<mapsto> \<lparr> pipeline = 4, valid = True \<rparr>] \<rparr> 1
           = Some \<lparr> pipeline = 4, valid = True \<rparr>"
    by simp
  from T [THEN conjunct2, THEN conjunct2, THEN conjunct1, rule_format, OF e]
  obtain pdd' where p: "perDeviceData (internalInvalidate
       \<lparr> pipelineCache = 0, pipelineLayout = 0, perDeviceData = [1 \<mapsto> \<lparr> pipeline = 4, valid = True \<rparr>] \<rparr>) 1 = Some pdd'"
    and h: "pipeline pdd' = 4"
    by auto
  from T [THEN conjunct1, rule_format, OF p] have "\<not> valid pdd'" .
  with h have "pdd' = \<lparr> pipeline = 4, valid = False \<rparr>" by (cases pdd') simp
  with p have first: "perDeviceData (internalInvalidate
       \<lparr> pipelineCache = 0, pipelineLayout = 0, perDeviceData = [1 \<mapsto> \<lparr> pipeline = 4, valid = True \<rparr>] \<rparr>) 1
     = Some \<lparr> pipeline = 4, valid = False \<rparr>" by simp
  from T [THEN conjunct2, THEN conjunct2, THEN conjunct2, THEN conjunct2, THEN conjunct2, THEN conjunct2,
          rule_format, OF d]
  have "creations NativePipeline 1
     (snd (Pipeline_validate \<lparr> vkDevice = 1, vkSurface = 1, activeIndex = 0, imageCount = 1 \<rparr>
        (internalInvalidate
           \<lparr> pipelineCache = 0, pipelineLayout = 0, perDeviceData = [1 \<mapsto> \<lparr> pipeline = 4, valid = True \<rparr>] \<rparr>,
         [(NativePipeline, 1, 4)]))) = Suc (creations NativePipeline 1 [(NativePipeline, 1, 4)])"
    by simp
  with first show ?thesis by (simp add: creations_single)
qed

section \<open>A freshly constructed descriptor set\<close>

text \<open>
  C9. A descriptor set constructed from a layout and a pool has \<open>activeCount = 1\<close> and
  no per-surface entry; a per-surface entry built for that count holds one null handle
  and one validity flag, \<open>false\<close>. As long as the set is validated by render contexts
  with a single in-flight slot, every \<open>validate\<close> succeeds, the count stays 1, and the
  set holds an entry for exactly the surfaces validated, each with one handle and one
  flag. In general, after a run of \<open>validate\<close> calls by contexts of any numbers of
  slots, the count is the number of slots of the last context (the count the set was
  last resized to), and every per-surface entry holds exactly that many handles and
  flags.
\<close>

theorem DescriptorSet_ctor_single_slot:
  "activeCount (DescriptorSet_ctor lay pl) = 1 \<and>
   perSurfaceData (DescriptorSet_ctor lay pl) sf = None \<and>
   psd_descriptorSet (PerSurfaceData_ctor (activeCount (DescriptorSet_ctor lay pl)) d) = [VK_NULL_HANDLE] \<and>
   psd_valid (PerSurfaceData_ctor (activeCount (DescriptorSet_ctor lay pl)) d) = [False] \<and>
   ((\<forall>rc \<in> set rcs. imageCount rc = 1 \<and> activeIndex rc = 0) \<longrightarrow>
      (\<exists>s'. DescriptorSet_validate_all rcs (DescriptorSet_ctor lay pl, vk) = Inr s' \<and>
            activeCount (fst s') = 1 \<and>
            dom (perSurfaceData (fst s')) = vkSurface ` set rcs \<and>
            (\<forall>sf psd. perSurfaceData (fst s') sf = Some psd \<longrightarrow>
               length (psd_descriptorSet psd) = 1 \<and> length (psd_valid psd) = 1))) \<and>
   ((\<forall>rc \<in> set rcs. unat (activeIndex rc) < unat (imageCount rc)) \<longrightarrow>
      (\<exists>s'. DescriptorSet_validate_all rcs (DescriptorSet_ctor lay pl, vk) = Inr s' \<and>
            activeCount (fst s') = last (1 # map imageCount rcs) \<and>
            dom (perSurfaceData (fst s')) = vkSurface ` set rcs \<and>
            (\<forall>sf psd. perSurfaceData (fst s') sf = Some psd \<longrightarrow>
               length (psd_descriptorSet psd) = unat (last (1 # map imageCount rcs)) \<and>
               length (psd_valid psd) = unat (last (1 # map imageCount rcs)))))"
proof -
  have z: "slotsSized (fst (DescriptorSet_ctor lay pl, vk))"
    by (simp add: slotsSized_ctor)
  have run: "\<exists>s'. DescriptorSet_validate_all rcs (DescriptorSet_ctor lay pl, vk) = Inr s' \<and>
            activeCount (fst s') = last (1 # map imageCount rcs) \<and>
            dom (perSurfaceData (fst s')) = vkSurface ` set rcs \<and>
            (\<forall>sf psd. perSurfaceData (fst s') sf = Some psd \<longrightarrow>
               length (psd_descriptorSet psd) = unat (last (1 # map imageCount rcs)) \<and>
               length (psd_valid psd) = unat (last (1 # map imageCount rcs)))"
    if wf: "\<forall>rc \<in> set rcs. unat (activeIndex rc) < unat (imageCount rc)"
  proof -
    from DescriptorSet_validate_all_ok [OF z wf]
    obtain s' where r: "DescriptorSet_validate_all rcs (DescriptorSet_ctor lay pl, vk) = Inr s'"
      and s: "slotsSized (fst s')"
      and a: "activeCount (fst s') = last (1 # map imageCount rcs)"
      and dm: "dom (perSurfaceData (fst s')) = vkSurface ` set rcs"
      by (auto simp: DescriptorSet_ctor_def)
    from s a have "\<forall>sf psd. perSurfaceData (fst s') sf = Some psd \<longrightarrow>
               length (psd_descriptorSet psd) = unat (last (1 # map imageCount rcs)) \<and>
               length (psd_valid psd) = unat (last (1 # map imageCount rcs))"
      by (simp add: slotsSized_def)
    with r a dm show ?thesis by blast
  qed
  have single: "\<exists>s'. DescriptorSet_validate_all rcs (DescriptorSet_ctor lay pl, vk) = Inr s' \<and>
            activeCount (fst s') = 1 \<and>
            dom (perSurfaceData (fst s')) = vkSurface ` set rcs \<and>
            (\<forall>sf psd. perSurfaceData (fst s') sf = Some psd \<longrightarrow>
               length (psd_descriptorSet psd) = 1 \<and> length (psd_valid psd) = 1)"
    if one: "\<forall>rc \<in> set rcs. imageCount rc = 1 \<and> activeIndex rc = 0"
  proof -
    from one have wf: "\<forall>rc \<in> set rcs. unat (activeIndex rc) < unat (imageCount rc)" by simp
    from one have "last (1 # map imageCount rcs) = 1"
      by (induction rcs) simp_all
    with run [OF wf] show ?thesis by simp
  qed
  show ?thesis
  proof (intro conjI impI)
    show "activeCount (DescriptorSet_ctor lay pl) = 1"
      and "perSurfaceData (DescriptorSet_ctor lay pl) sf = None"
      by (simp_all add: DescriptorSet_ctor_def)
    show "psd_descriptorSet (PerSurfaceData_ctor (activeCount (DescriptorSet_ctor lay pl)) d) = [VK_NULL_HANDLE]"
      by (simp add: DescriptorSet_ctor_def PerSurfaceData_ctor_descriptorSet)
    show "psd_valid (PerSurfaceData_ctor (activeCount (DescriptorSet_ctor lay pl)) d) = [False]"
      by (simp add: DescriptorSet_ctor_def PerSurfaceData_ctor_valid)
  qed (rule single, assumption, rule run, assumption)
qed

theorem DescriptorSet_ctor_single_slot_witness:
  "(\<exists>s'. DescriptorSet_validate_all [\<lparr> vkDevice = 1, vkSurface = 1, activeIndex = 0, imageCount = 1 \<rparr>, \<lparr> vkDevice = 1, vkSurface = 2, activeIndex = 0, imageCount = 1 \<rparr>] (DescriptorSet_ctor 0 0, []) = Inr s' \<and>
         activeCount (fst s') = 1 \<and>
         dom (perSurfaceData (fst s')) = {1, 2} \<and>
         (\<forall>sf psd. perSurfaceData (fst s') sf = Some psd \<longrightarrow>
            length (psd_descriptorSet psd) = 1 \<and> length (psd_valid psd) = 1)) \<and>
   (\<exists>s'. DescriptorSet_validate_all [\<lparr> vkDevice = 1, vkSurface = 1, activeIndex = 0, imageCount = 1 \<rparr>, \<lparr> vkDevice = 1, vkSurface = 1, activeIndex = 0, imageCount = 2 \<rparr>, \<lparr> vkDevice = 1, vkSurface = 1, activeIndex = 1, imageCount = 2 \<rparr>] (DescriptorSet_ctor 0 0, []) = Inr s' \<and>
         activeCount (fst s') = 2 \<and>
         dom (perSurfaceData (fst s')) = {1} \<and>
         (\<forall>sf psd. perSurfaceData (fst s') sf = Some psd \<longrightarrow>
            length (psd_descriptorSet psd) = 2 \<and> length (psd_valid psd) = 2))"
proof -
  have h: "(\<forall>rc \<in> set [\<lparr> vkDevice = 1, vkSurface = 1, activeIndex = 0, imageCount = 1 \<rparr>, \<lparr> vkDevice = 1, vkSurface = 2, activeIndex = 0, imageCount = 1 \<rparr>]. imageCount rc = 1 \<and> activeIndex rc = 0) = True"
    by simp
  have h2: "(\<forall>rc \<in> set [\<lparr> vkDevice = 1, vkSurface = 1, activeIndex = 0, imageCount = 1 \<rparr>, \<lparr> vkDevice = 1, vkSurface = 1, activeIndex = 0, imageCount = 2 \<rparr>, \<lparr> vkDevice = 1, vkSurface = 1, activeIndex = 1, imageCount = 2 \<rparr>]. unat (activeIndex rc) < unat (imageCount rc)) = True"
    by simp
  note A = DescriptorSet_ctor_single_slot
      [where rcs = "[\<lparr> vkDevice = 1, vkSurface = 1, activeIndex = 0, imageCount = 1 \<rparr>, \<lparr> vkDevice = 1, vkSurface = 2, activeIndex = 0, imageCount = 1 \<rparr>]" and lay = 0 and pl = 0 and vk = "[]",
       THEN conjunct2, THEN conjunct2, THEN conjunct2, THEN conjunct2, THEN conjunct1]
  note B = DescriptorSet_ctor_single_slot
      [where rcs = "[\<lparr> vkDevice = 1, vkSurface = 1, activeIndex = 0, imageCount = 1 \<rparr>, \<lparr> vkDevice = 1, vkSurface = 1, activeIndex = 0, imageCount = 2 \<rparr>, \<lparr> vkDevice = 1, vkSurface = 1, activeIndex = 1, imageCount = 2 \<rparr>]" and lay = 0 and pl = 0 and vk = "[]",
       THEN conjunct2, THEN conjunct2, THEN conjunct2, THEN conjunct2, THEN conjunct2]
  from A have a: "\<exists>s'. DescriptorSet_validate_all [\<lparr> vkDevice = 1, vkSurface = 1, activeIndex = 0, imageCount = 1 \<rparr>, \<lparr> vkDevice = 1, vkSurface = 2, activeIndex = 0, imageCount = 1 \<rparr>] (DescriptorSet_ctor 0 0, []) = Inr s' \<and>
         activeCount (fst s') = 1 \<and>
         dom (perSurfaceData (fst s')) = vkSurface ` set [\<lparr> vkDevice = 1, vkSurface = 1, activeIndex = 0, imageCount = 1 \<rparr>, \<lparr> vkDevice = 1, vkSurface = 2, activeIndex = 0, imageCount = 1 \<rparr>] \<and>
         (\<forall>sf psd. perSurfaceData (fst s') sf = Some psd \<longrightarrow>
            length (psd_descriptorSet psd) = 1 \<and> length (psd_valid psd) = 1)"
    by (simp only: h simp_thms)
  from B have b: "\<exists>s'. DescriptorSet_validate_all [\<lparr> vkDevice = 1, vkSurface = 1, activeIndex = 0, imageCount = 1 \<rparr>, \<lparr> vkDevice = 1, vkSurface = 1, activeIndex = 0, imageCount = 2 \<rparr>, \<lparr> vkDevice = 1, vkSurface = 1, activeIndex = 1, imageCount = 2 \<rparr>] (DescriptorSet_ctor 0 0, []) = Inr s' \<and>
         activeCount (fst s') = last (1 # map imageCount [\<lparr> vkDevice = 1, vkSurface = 1, activeIndex = 0, imageCount = 1 \<rparr>, \<lparr> vkDevice = 1, vkSurface = 1, activeIndex = 0, imageCount = 2 \<rparr>, \<lparr> vkDevice = 1, vkSurface = 1, activeIndex = 1, imageCount = 2 \<rparr>]) \<and>
         dom (perSurfaceData (fst s')) = vkSurface ` set [\<lparr> vkDevice = 1, vkSurface = 1, activeIndex = 0, imageCount = 1 \<rparr>, \<lparr> vkDevice = 1, vkSurface = 1, activeIndex = 0, imageCount = 2 \<rparr>, \<lparr> vkDevice = 1, vkSurface = 1, activeIndex = 1, imageCount = 2 \<rparr>] \<and>
         (\<forall>sf psd. perSurfaceData (fst s') sf = Some psd \<longrightarrow>
            length (psd_descriptorSet psd) = unat (last (1 # map imageCount [\<lparr> vkDevice = 1, vkSurface = 1, activeIndex = 0, imageCount = 1 \<rparr>, \<lparr> vkDevice = 1, vkSurface = 1, activeIndex = 0, imageCount = 2 \<rparr>, \<lparr> vkDevice = 1, vkSurface = 1, activeIndex = 1, imageCount = 2 \<rparr>])) \<and>
            length (psd_valid psd) = unat (last (1 # map imageCount [\<lparr> vkDevice = 1, vkSurface = 1, activeIndex = 0, imageCount = 1 \<rparr>, \<lparr> vkDevice = 1, vkSurface = 1, activeIndex = 0, imageCount = 2 \<rparr>, \<lparr> vkDevice = 1, vkSurface = 1, activeIndex = 1, imageCount = 2 \<rparr>])))"
    by (simp only: h2 simp_thms)
  from a b show ?thesis by simp
qed

end
